theory Spec2Isabelle
  imports Complex_Main "HOL-Library.Finite_Map" "HOL-Library.Word"
begin

section \<open>Values and library functions\<close>

text \<open>
  A Python value as \<^verbatim>\<open>json.loads\<close> produces it. A \<^verbatim>\<open>dict\<close> is a finite map from
  strings to values; two dicts are equal when they hold the same keys and values, as in
  Python. The type \<open>'f\<close> stands for Python's \<^verbatim>\<open>float\<close>: the client never computes
  with a decoded float, it only stores it. A \<^verbatim>\<open>str\<close> is a \<open>string\<close>.
\<close>

datatype 'f json =
    JNull
  | JBool bool
  | JInt int
  | JFloat 'f
  | JStr string
  | JList "'f json list"
  | JDict "(string, 'f json) fmap"

type_synonym 'f dict = "(string, 'f json) fmap"

text \<open>
  The builtins and library functions the client calls, taken as parameters:
  \<^verbatim>\<open>int(v)\<close> and \<^verbatim>\<open>float(v)\<close> on a string (\<open>None\<close> when they raise),
  \<^verbatim>\<open>json.loads(text)\<close> (\<open>None\<close> when it raises), \<^verbatim>\<open>json.dumps(obj, separators=(",", ":"))\<close>
  (\<open>None\<close> when it raises) and \<^verbatim>\<open>raw.decode("utf-8", "ignore")\<close> on the bytes of a binary frame.
\<close>

record 'f pylib =
  py_int :: "string \<Rightarrow> int option"
  py_float :: "string \<Rightarrow> 'f option"
  json_loads :: "string \<Rightarrow> 'f json option"
  json_dumps :: "'f json \<Rightarrow> string option"
  decode_utf8_ignore :: "8 word list \<Rightarrow> string"

section \<open>\<^verbatim>\<open>_coerce_numbers\<close>\<close>

text \<open>
  One value of the loop body of \<^verbatim>\<open>_coerce_numbers\<close>: a string is passed to \<^verbatim>\<open>float\<close> when it
  contains a dot and to \<^verbatim>\<open>int\<close> otherwise; when that raises, and for every value that is
  not a string, the value is stored as it is.
\<close>

definition coerce_value :: "'f pylib \<Rightarrow> 'f json \<Rightarrow> 'f json" where
  "coerce_value lib v =
     (case v of
        JStr s \<Rightarrow>
          (if CHR ''.'' \<in> set s
           then (case py_float lib s of Some x \<Rightarrow> JFloat x | None \<Rightarrow> v)
           else (case py_int lib s of Some n \<Rightarrow> JInt n | None \<Rightarrow> v))
      | _ \<Rightarrow> v)"

text \<open>The loop over \<^verbatim>\<open>d.items()\<close> gives every key of \<open>d\<close> the coerced value.\<close>

definition coerce_numbers :: "'f pylib \<Rightarrow> 'f dict \<Rightarrow> 'f dict" where
  "coerce_numbers lib d = fmmap (coerce_value lib) d"

section \<open>The client\<close>

text \<open>
  The fields of \<^verbatim>\<open>K1CClient\<close>. An \<^verbatim>\<open>asyncio.Event\<close> is its flag; a task handle or the
  socket is \<open>True\<close> when the field is not \<^verbatim>\<open>None\<close>; the monotonic clock is a \<open>real\<close>.
  The last four fields are not fields of the class: they record, oldest first, what the
  connectivity loop did to its surroundings, namely every call of \<^verbatim>\<open>ws.send\<close> it made (the text,
  and whether the call returned rather than raised), every snapshot it passed to
  \<^verbatim>\<open>on_message\<close>, every line it logged and every timeout it slept between two attempts.
\<close>

datatype log_entry =
    LogConnecting
  | LogConnected
  | LogOnMessageFailed
  | LogUnexpectedFrame
  | LogConnectionError
  | LogLoopExited

record 'f client =
  state :: "'f dict"
  task :: bool
  ws :: bool
  stop_ev :: bool
  connected_once :: bool
  ws_ready :: bool
  last_rx :: real
  hb_task :: bool
  tick_task :: bool
  sends :: "(string \<times> bool) list"
  delivered :: "'f dict list"
  logged :: "log_entry list"
  slept :: "real list"

definition init :: "'f client" where
  "init =
     \<lparr>state = fmempty, task = False, ws = False, stop_ev = False, connected_once = False,
      ws_ready = False, last_rx = 0, hb_task = False, tick_task = False,
      sends = [], delivered = [], logged = [], slept = []\<rparr>"

definition log :: "log_entry \<Rightarrow> 'f client \<Rightarrow> 'f client" where
  "log e c = c\<lparr>logged := logged c @ [e]\<rparr>"

text \<open>
  The two constants that the loop imports from \<^verbatim>\<open>const.py\<close>, \<^verbatim>\<open>RETRY_MIN_BACKOFF\<close> and
  \<^verbatim>\<open>RETRY_MAX_BACKOFF\<close>. Their values are parameters of the model.
\<close>

record config =
  retry_min_backoff :: real
  retry_max_backoff :: real

subsection \<open>One inbound frame\<close>

text \<open>
  What the surroundings decide for one turn of \<^verbatim>\<open>async for raw in ws\<close>: the frame, the value
  of \<^verbatim>\<open>time.monotonic()\<close> when it is taken, whether \<^verbatim>\<open>ws.send("ok")\<close> and
  \<^verbatim>\<open>on_message\<close> raise an \<^verbatim>\<open>Exception\<close> should the loop call them, and what
  \<^verbatim>\<open>on_message\<close> writes into the snapshot it is given. Cancellation of the loop
  task at one of these calls is not a field here: it ends the connection, see \<open>ending\<close>.
\<close>

datatype raw_frame = Text string | Binary "8 word list"

record 'f frame_ev =
  raw :: raw_frame
  rx_time :: real
  ack_raises :: bool
  cb_raises :: bool
  cb_writes :: "(string \<times> 'f json) list"

text \<open>
  The snapshot of line 163 is \<^verbatim>\<open>dict(self._state)\<close>, a copy of the mapping and not of its
  values: a list or a mapping under a key of the snapshot is the very object the state
  holds under that key (line 38 stores the value itself, line 161 puts it into the state).
  The observer cannot reach the keys of the state through its snapshot, nor change a
  string, a number, a truth value or \<^verbatim>\<open>None\<close>, but what it writes into a list or a mapping
  of the snapshot is written into the state. A write is a key and the contents the object
  under that key has afterwards; it is done in place, so a list stays a list and a mapping
  a mapping, and a key the state does not hold is not written.
\<close>

definition write_nested :: "'f json \<Rightarrow> 'f json \<Rightarrow> 'f json" where
  "write_nested new v =
     (case v of
        JList xs \<Rightarrow> (case new of JList ys \<Rightarrow> JList ys | _ \<Rightarrow> v)
      | JDict m \<Rightarrow> (case new of JDict n \<Rightarrow> JDict n | _ \<Rightarrow> v)
      | _ \<Rightarrow> v)"

definition observer_write :: "string \<times> 'f json \<Rightarrow> 'f dict \<Rightarrow> 'f dict" where
  "observer_write w m =
     (case fmlookup m (fst w) of
        None \<Rightarrow> m
      | Some v \<Rightarrow> fmupd (fst w) (write_nested (snd w) v) m)"

definition observer_writes :: "'f frame_ev \<Rightarrow> 'f dict \<Rightarrow> 'f dict" where
  "observer_writes ev m = fold observer_write (cb_writes ev) m"

text \<open>Lines 134 to 137: a binary frame is decoded, a text frame is taken as it is.\<close>

definition frame_text :: "'f pylib \<Rightarrow> raw_frame \<Rightarrow> string" where
  "frame_text lib r = (case r of Binary bs \<Rightarrow> decode_utf8_ignore lib bs | Text t \<Rightarrow> t)"

text \<open>The body of \<^verbatim>\<open>async for raw in ws\<close>, lines 132 to 167.\<close>

definition handle_frame :: "'f pylib \<Rightarrow> 'f frame_ev \<Rightarrow> 'f client \<Rightarrow> 'f client" where
  "handle_frame lib ev c =
     (let c1 = c\<lparr>last_rx := rx_time ev\<rparr>;
          text = frame_text lib (raw ev)
      in if text = ''ok'' then c1
         else case json_loads lib text of
                None \<Rightarrow> c1
              | Some (JDict payload) \<Rightarrow>
                  if fmlookup payload ''ModeCode'' = Some (JStr ''heart_beat'')
                  then c1\<lparr>sends := sends c1 @ [(''ok'', \<not> ack_raises ev)]\<rparr>
                  else
                    let merged = coerce_numbers lib payload;
                        c2 = c1\<lparr>state := state c1 ++\<^sub>f merged\<rparr>;
                        c3 = c2\<lparr>delivered := delivered c2 @ [state c2]\<rparr>;
                        c4 = c3\<lparr>state := observer_writes ev (state c3)\<rparr>
                    in if cb_raises ev then log LogOnMessageFailed c4 else c4
              | Some _ \<Rightarrow> log LogUnexpectedFrame c1)"

subsection \<open>One connection attempt\<close>

text \<open>
  How a live connection ends: the iteration over the socket finishes (the peer closed in
  good order), it raises an \<^verbatim>\<open>Exception\<close> (read error, abnormal close), or the loop task is
  cancelled at one of its suspension points, which raises \<^verbatim>\<open>asyncio.CancelledError\<close> there.
  The frames of a connection are those whose handling was completed or was cut by that
  cancellation: a cancellation inside \<^verbatim>\<open>ws.send("ok")\<close> or inside \<^verbatim>\<open>on_message\<close> leaves the
  fields as a call that returned does.
\<close>

datatype ending = Closed | Failed | Cancelled

text \<open>
  What \<^verbatim>\<open>websockets.connect\<close> does in one turn of the outer loop: it raises an
  \<^verbatim>\<open>Exception\<close>, the task is cancelled while it connects, or it yields a socket; then
  the clock value read at line 125, the frames received and the ending.
\<close>

datatype 'f attempt =
    ConnectRaises
  | ConnectCancelled
  | Connected real "'f frame_ev list" ending

text \<open>Lines 120 to 129, then the receive loop.\<close>

definition session :: "'f pylib \<Rightarrow> real \<Rightarrow> 'f frame_ev list \<Rightarrow> 'f client \<Rightarrow> 'f client" where
  "session lib now frames c =
     (let c1 = c\<lparr>ws := True\<rparr>;
          c2 = c1\<lparr>ws_ready := True\<rparr>;
          c3 = log LogConnected c2;
          c4 = c3\<lparr>connected_once := True\<rparr>;
          c5 = c4\<lparr>last_rx := now\<rparr>;
          c6 = c5\<lparr>hb_task := True, tick_task := True\<rparr>
      in fold (handle_frame lib) frames c6)"

text \<open>The \<^verbatim>\<open>finally\<close> clause, lines 173 to 181.\<close>

definition cleanup :: "'f client \<Rightarrow> 'f client" where
  "cleanup c = c\<lparr>hb_task := False, tick_task := False, ws := False, ws_ready := False\<rparr>"

text \<open>The \<^verbatim>\<open>try\<close> statement of the outer loop, lines 115 to 181.\<close>

fun run_attempt :: "'f pylib \<Rightarrow> 'f attempt \<Rightarrow> 'f client \<Rightarrow> 'f client" where
  "run_attempt lib ConnectRaises c = cleanup (log LogConnectionError (log LogConnecting c))"
| "run_attempt lib ConnectCancelled c = cleanup (log LogConnecting c)"
| "run_attempt lib (Connected now frames Closed) c =
     cleanup (session lib now frames (log LogConnecting c))"
| "run_attempt lib (Connected now frames Failed) c =
     cleanup (log LogConnectionError (session lib now frames (log LogConnecting c)))"
| "run_attempt lib (Connected now frames Cancelled) c =
     cleanup (session lib now frames (log LogConnecting c))"

fun cancelled :: "'f attempt \<Rightarrow> bool" where
  "cancelled ConnectCancelled = True"
| "cancelled (Connected now frames Cancelled) = True"
| "cancelled _ = False"

fun connected :: "'f attempt \<Rightarrow> bool" where
  "connected (Connected now frames e) = True"
| "connected _ = False"

subsection \<open>The connectivity loop\<close>

text \<open>
  How the wait of lines 186 to 189 ends: the timeout passes, \<^verbatim>\<open>stop()\<close> has set the stop
  event by then, or the task is cancelled while it waits. The last is outside every
  \<^verbatim>\<open>try\<close> of \<^verbatim>\<open>_loop\<close>, so the \<^verbatim>\<open>CancelledError\<close> leaves the coroutine.
\<close>

datatype wait_outcome = TimedOut | StopSet | WaitCancelled

text \<open>
  One turn of \<^verbatim>\<open>while not self._stop.is_set()\<close>: the attempt, the value drawn by
  \<^verbatim>\<open>random.uniform(0.0, 0.4)\<close> and the end of the wait.
\<close>

record 'f round =
  attempt :: "'f attempt"
  jitter :: real
  wait :: wait_outcome

definition sleep_for :: "config \<Rightarrow> real \<Rightarrow> real \<Rightarrow> real" where
  "sleep_for cfg backoff j = min (backoff * (1.8 + j)) (retry_max_backoff cfg)"

text \<open>
  \<^verbatim>\<open>_loop\<close> from line 114 on, with the local variable \<^verbatim>\<open>backoff\<close> as an argument. The list
  holds the turns the surroundings offer. The stop event is looked at before every turn:
  when it is set the loop is left and line 192 logs that. When the list is used up with
  the stop event not set, the loop is still running. Line 124 resets \<^verbatim>\<open>backoff\<close> once a socket is there, so the delay after a connection is
  computed from the minimum.
\<close>

fun loop :: "'f pylib \<Rightarrow> config \<Rightarrow> 'f round list \<Rightarrow> real \<Rightarrow> 'f client \<Rightarrow> 'f client" where
  "loop lib cfg [] backoff c = (if stop_ev c then log LogLoopExited c else c)"
| "loop lib cfg (r # rs) backoff c =
     (if stop_ev c then log LogLoopExited c
      else
        let c1 = run_attempt lib (attempt r) c
        in if cancelled (attempt r) then log LogLoopExited c1
           else
             let b = (if connected (attempt r) then retry_min_backoff cfg else backoff);
                 d = sleep_for cfg b (jitter r);
                 c2 = c1\<lparr>slept := slept c1 @ [d]\<rparr>;
                 b' = min d (retry_max_backoff cfg)
             in case wait r of
                  WaitCancelled \<Rightarrow> c2
                | TimedOut \<Rightarrow> loop lib cfg rs b' c2
                | StopSet \<Rightarrow> loop lib cfg rs b' (c2\<lparr>stop_ev := True\<rparr>))"

text \<open>\<^verbatim>\<open>_loop\<close> from its first line.\<close>

definition loop_task :: "'f pylib \<Rightarrow> config \<Rightarrow> 'f round list \<Rightarrow> 'f client \<Rightarrow> 'f client" where
  "loop_task lib cfg rs c = loop lib cfg rs (retry_min_backoff cfg) c"

subsection \<open>Lifecycle and health\<close>

definition start :: "'f client \<Rightarrow> 'f client" where
  "start c = (if task c then c else c\<lparr>stop_ev := False, task := True\<rparr>)"

text \<open>
  \<^verbatim>\<open>stop()\<close> sets the stop event, cancels the helper tasks and the loop task and closes the
  socket; what the loop does on that is part of its own turns (\<open>Cancelled\<close>, \<open>StopSet\<close>,
  \<open>WaitCancelled\<close>). The argument says whether awaiting the loop task raises
  \<^verbatim>\<open>CancelledError\<close>, which \<^verbatim>\<open>except Exception\<close> does not catch: then \<^verbatim>\<open>stop()\<close> raises it
  (first component \<open>True\<close>) and \<^verbatim>\<open>self._task\<close> stays.
\<close>

definition stop :: "bool \<Rightarrow> 'f client \<Rightarrow> bool \<times> 'f client" where
  "stop await_cancelled c =
     (let c1 = c\<lparr>stop_ev := True\<rparr>
      in if task c1
         then (if await_cancelled then (True, c1) else (False, c1\<lparr>task := False\<rparr>))
         else (False, c1))"

text \<open>
  \<^verbatim>\<open>asyncio.wait_for(event.wait(), timeout)\<close>, \<open>True\<close> when it returns and \<open>False\<close> when it
  raises \<^verbatim>\<open>TimeoutError\<close>. With a timeout that is not positive \<^verbatim>\<open>wait_for\<close> cancels the
  waiter before it has run and raises, whatever the event holds. Otherwise the waiter
  returns at once when the event is set, and else when it is set before the timeout passes
  (\<open>set_in_time\<close>).
\<close>

definition wait_for_event :: "real \<Rightarrow> bool \<Rightarrow> bool \<Rightarrow> bool" where
  "wait_for_event timeout is_set set_in_time = (0 < timeout \<and> (is_set \<or> set_in_time))"

text \<open>
  \<^verbatim>\<open>wait_connected\<close>: whether the readiness event is set before the timeout passes is for
  the surroundings to say.
\<close>

definition wait_connected :: "real \<Rightarrow> bool \<Rightarrow> 'f client \<Rightarrow> bool" where
  "wait_connected timeout set_in_time c = wait_for_event timeout (ws_ready c) set_in_time"

definition last_rx_monotonic :: "'f client \<Rightarrow> real" where
  "last_rx_monotonic c = last_rx c"

text \<open>
  The life of one client: calls of \<^verbatim>\<open>start()\<close> and \<^verbatim>\<open>stop()\<close> and runs of the loop task
  in any order.
\<close>

datatype 'f op = Start | Stop bool | Run "'f round list"

fun apply_op :: "'f pylib \<Rightarrow> config \<Rightarrow> 'f op \<Rightarrow> 'f client \<Rightarrow> 'f client" where
  "apply_op lib cfg Start c = start c"
| "apply_op lib cfg (Stop b) c = snd (stop b c)"
| "apply_op lib cfg (Run rs) c = loop_task lib cfg rs c"

definition run :: "'f pylib \<Rightarrow> config \<Rightarrow> 'f op list \<Rightarrow> 'f client \<Rightarrow> 'f client" where
  "run lib cfg ops c = fold (apply_op lib cfg) ops c"

text \<open>
  \<^verbatim>\<open>wait_first_connect\<close>, called on the client \<open>c\<close>. While the caller waits the client
  lives on; \<open>during\<close> is what it goes through until the wait is over. The latch is set
  in time when it is set at some moment of that stretch.
\<close>

definition latched_during :: "'f pylib \<Rightarrow> config \<Rightarrow> 'f op list \<Rightarrow> 'f client \<Rightarrow> bool" where
  "latched_during lib cfg during c =
     list_ex (\<lambda>n. connected_once (run lib cfg (take n during) c)) [0..<Suc (length during)]"

definition wait_first_connect ::
  "'f pylib \<Rightarrow> config \<Rightarrow> real \<Rightarrow> 'f op list \<Rightarrow> 'f client \<Rightarrow> bool" where
  "wait_first_connect lib cfg timeout during c =
     wait_for_event timeout (connected_once c) (latched_during lib cfg during c)"

section \<open>Sending commands\<close>

text \<open>
  What a send can raise: the \<^verbatim>\<open>RuntimeError\<close> of line 277, an error of \<^verbatim>\<open>json.dumps\<close>,
  whatever \<^verbatim>\<open>ws.send\<close> raised (\<open>'e\<close>), and the \<^verbatim>\<open>RuntimeError\<close> of line 268 with the
  timeout of its message and the exception it is raised \<^verbatim>\<open>from\<close>.
\<close>

datatype 'e exn =
    NotConnected
  | EncodeError
  | SendError 'e
  | LinkUnavailable real "'e exn"

text \<open>
  \<^verbatim>\<open>_send_json\<close>, under the send lock. The second argument is what \<^verbatim>\<open>ws.send\<close> does if it
  is called: \<open>None\<close> when it returns, \<open>Some e\<close> when it raises \<open>e\<close>. The result comes
  with the texts handed to \<^verbatim>\<open>ws.send\<close>, the physical send attempts of the call.
\<close>

definition send_json ::
  "'f pylib \<Rightarrow> 'e option \<Rightarrow> 'f json \<Rightarrow> 'f client \<Rightarrow> ('e exn + unit) \<times> string list" where
  "send_json lib outcome obj c =
     (if \<not> ws c then (Inl NotConnected, [])
      else case json_dumps lib obj of
             None \<Rightarrow> (Inl EncodeError, [])
           | Some s \<Rightarrow>
               (case outcome of
                  None \<Rightarrow> (Inr (), [s])
                | Some e \<Rightarrow> (Inl (SendError e), [s])))"

definition set_request :: "'f dict \<Rightarrow> 'f json" where
  "set_request params =
     JDict (fmap_of_list [(''method'', JStr ''set''), (''params'', JDict params)])"

definition send_set ::
  "'f pylib \<Rightarrow> 'e option \<Rightarrow> 'f dict \<Rightarrow> 'f client \<Rightarrow> ('e exn + unit) \<times> string list" where
  "send_set lib outcome params c = send_json lib outcome (set_request params) c"

text \<open>
  The loop task runs while \<^verbatim>\<open>send_set_retry\<close> is suspended, so the caller meets the client
  in up to three conditions: at its first send, when it starts to wait, and at its second
  send. They are given with what \<^verbatim>\<open>ws.send\<close> does at either send and whether the readiness
  event is set before the timeout passes.
\<close>

record ('f, 'e) retry_env =
  at_first :: "'f client"
  first_send :: "'e option"
  at_wait :: "'f client"
  ready_in_time :: bool
  at_second :: "'f client"
  second_send :: "'e option"

definition send_set_retry ::
  "'f pylib \<Rightarrow> real \<Rightarrow> 'f dict \<Rightarrow> ('f, 'e) retry_env \<Rightarrow> ('e exn + unit) \<times> string list" where
  "send_set_retry lib wait_reconnect params env =
     (case send_json lib (first_send env) (set_request params) (at_first env) of
        (Inr u, tried) \<Rightarrow> (Inr (), tried)
      | (Inl first_exc, tried) \<Rightarrow>
          let ok = wait_connected wait_reconnect (ready_in_time env) (at_wait env)
          in if \<not> ok then (Inl (LinkUnavailable wait_reconnect first_exc), tried)
             else
               (case send_json lib (second_send env) (set_request params) (at_second env) of
                  (res, tried') \<Rightarrow> (res, tried @ tried')))"

section \<open>What the claims speak of\<close>

text \<open>
  The mapping a frame carries when the loop treats it as a state update (line 159 is
  reached with a \<^verbatim>\<open>dict\<close>), and \<open>None\<close> for every other frame.
\<close>

definition update_of :: "'f pylib \<Rightarrow> 'f frame_ev \<Rightarrow> 'f dict option" where
  "update_of lib ev =
     (let text = frame_text lib (raw ev)
      in if text = ''ok'' then None
         else case json_loads lib text of
                Some (JDict payload) \<Rightarrow>
                  if fmlookup payload ''ModeCode'' = Some (JStr ''heart_beat'') then None
                  else Some payload
              | _ \<Rightarrow> None)"

definition updates :: "'f pylib \<Rightarrow> 'f frame_ev list \<Rightarrow> 'f dict list" where
  "updates lib evs = List.map_filter (update_of lib) evs"

text \<open>
  The turns of a list that the loop runs, given the stop event at its start: none once
  the stop event is set, and none after a cancellation.
\<close>

fun executed :: "bool \<Rightarrow> 'f round list \<Rightarrow> 'f round list" where
  "executed stopped [] = []"
| "executed stopped (r # rs) =
     (if stopped then []
      else if cancelled (attempt r) \<or> wait r = WaitCancelled then [r]
      else r # executed (wait r = StopSet) rs)"

fun frames_of :: "'f attempt \<Rightarrow> 'f frame_ev list" where
  "frames_of (Connected now frames e) = frames"
| "frames_of _ = []"

definition received :: "bool \<Rightarrow> 'f round list \<Rightarrow> 'f frame_ev list" where
  "received stopped rs = concat (map (\<lambda>r. frames_of (attempt r)) (executed stopped rs))"

text \<open>The frames that reach the client over its life, in the order of arrival.\<close>

fun arrivals :: "'f pylib \<Rightarrow> config \<Rightarrow> 'f op list \<Rightarrow> 'f client \<Rightarrow> 'f frame_ev list" where
  "arrivals lib cfg [] c = []"
| "arrivals lib cfg (Run rs # xs) c =
     received (stop_ev c) rs @ arrivals lib cfg xs (apply_op lib cfg (Run rs) c)"
| "arrivals lib cfg (x # xs) c = arrivals lib cfg xs (apply_op lib cfg x c)"

text \<open>
  The merge of the specification: the update mappings, each coerced, laid over a starting
  state one after the other, and the state after each of them.
\<close>

fun merge_all :: "'f pylib \<Rightarrow> 'f dict list \<Rightarrow> 'f dict \<Rightarrow> 'f dict" where
  "merge_all lib [] m = m"
| "merge_all lib (d # ds) m = merge_all lib ds (m ++\<^sub>f coerce_numbers lib d)"

fun snapshots :: "'f pylib \<Rightarrow> 'f dict list \<Rightarrow> 'f dict \<Rightarrow> 'f dict list" where
  "snapshots lib [] m = []"
| "snapshots lib (d # ds) m =
     (m ++\<^sub>f coerce_numbers lib d) # snapshots lib ds (m ++\<^sub>f coerce_numbers lib d)"

text \<open>
  Last writer wins, key by key: the coerced value of the last mapping that holds the key,
  and the starting state's value when none does.
\<close>

definition last_writer :: "'f pylib \<Rightarrow> 'f dict list \<Rightarrow> 'f dict \<Rightarrow> string \<Rightarrow> 'f json option" where
  "last_writer lib ds m k =
     (case find (\<lambda>d. k |\<in>| fmdom d) (rev ds) of
        Some d \<Rightarrow> map_option (coerce_value lib) (fmlookup d k)
      | None \<Rightarrow> fmlookup m k)"

text \<open>
  What the loop's own code makes of the state and of the snapshots, frame by frame, with
  the observer's writes: the state after a frame, after a list of frames, and the snapshots
  passed on the way.
\<close>

definition after_frame :: "'f pylib \<Rightarrow> 'f frame_ev \<Rightarrow> 'f dict \<Rightarrow> 'f dict" where
  "after_frame lib ev m =
     (case update_of lib ev of
        Some d \<Rightarrow> observer_writes ev (m ++\<^sub>f coerce_numbers lib d)
      | None \<Rightarrow> m)"

definition replay :: "'f pylib \<Rightarrow> 'f frame_ev list \<Rightarrow> 'f dict \<Rightarrow> 'f dict" where
  "replay lib evs m = fold (after_frame lib) evs m"

fun seen :: "'f pylib \<Rightarrow> 'f frame_ev list \<Rightarrow> 'f dict \<Rightarrow> 'f dict list" where
  "seen lib [] m = []"
| "seen lib (ev # evs) m =
     (case update_of lib ev of
        Some d \<Rightarrow> (m ++\<^sub>f coerce_numbers lib d) # seen lib evs (after_frame lib ev m)
      | None \<Rightarrow> seen lib evs (after_frame lib ev m))"

text \<open>
  An observer that leaves its snapshot alone, and the values no observer can change.
\<close>

definition quiet :: "'f frame_ev \<Rightarrow> bool" where
  "quiet ev = (cb_writes ev = [])"

fun scalar :: "'f json \<Rightarrow> bool" where
  "scalar (JList xs) = False"
| "scalar (JDict m) = False"
| "scalar v = True"

text \<open>
  A stand-in for the library on the texts of the examples below (the texts are written
  without their quotation marks), and bounds for the backoff. Its decoder is right on
  the bytes of the examples: it keeps the bytes of ASCII and drops the byte \<open>0xFF\<close>,
  which no UTF-8 text holds.
\<close>

definition demo_lib :: "rat pylib" where
  "demo_lib =
     \<lparr>py_int = (\<lambda>s. if s = ''42'' then Some 42 else if s = ''120'' then Some 120 else None),
      py_float = (\<lambda>s. if s = ''23.5'' then Some (47 / 2) else None),
      json_loads = (\<lambda>s.
        if s = ''{ModeCode:heart_beat}''
          then Some (JDict (fmap_of_list [(''ModeCode'', JStr ''heart_beat'')]))
        else if s = ''{temp:23.5,state:printing}''
          then Some (JDict (fmap_of_list [(''temp'', JStr ''23.5''), (''state'', JStr ''printing'')]))
        else if s = ''{progress:42}''
          then Some (JDict (fmap_of_list [(''progress'', JStr ''42'')]))
        else if s = ''{objects:[1]}''
          then Some (JDict (fmap_of_list [(''objects'', JList [JInt 1])]))
        else None),
      json_dumps = (\<lambda>v. Some ''{method:set}''),
      decode_utf8_ignore = (\<lambda>bs. map (\<lambda>w. char_of (unat w)) (filter (\<lambda>w. w \<noteq> 0xFF) bs))\<rparr>"

definition demo_cfg :: config where
  "demo_cfg = \<lparr>retry_min_backoff = 1, retry_max_backoff = 5\<rparr>"

definition frame :: "string \<Rightarrow> real \<Rightarrow> 'f frame_ev" where
  "frame txt clock =
     \<lparr>raw = Text txt, rx_time = clock, ack_raises = False, cb_raises = False, cb_writes = []\<rparr>"

text \<open>
  A life for the examples: the first attempt fails; the second connects, receives a
  heartbeat request and an update, and the peer closes; the third connects, receives one
  more update and breaks, and \<^verbatim>\<open>stop()\<close> is called during the wait that follows.
\<close>

definition demo_rounds :: "rat round list" where
  "demo_rounds =
     [\<lparr>attempt = ConnectRaises, jitter = 0.2, wait = TimedOut\<rparr>,
      \<lparr>attempt = Connected 10
         [frame ''{ModeCode:heart_beat}'' 11, frame ''{temp:23.5,state:printing}'' 12] Closed,
       jitter = 0.1, wait = TimedOut\<rparr>,
      \<lparr>attempt = Connected 20 [frame ''{progress:42}'' 21] Failed,
       jitter = 0.3, wait = StopSet\<rparr>]"

definition demo_ops :: "rat op list" where
  "demo_ops = [Start, Run demo_rounds, Stop False]"

text \<open>A mapping and some frames for the examples.\<close>

definition demo_dict :: "rat dict" where
  "demo_dict =
     fmap_of_list
       [(''temp'', JStr ''23.5''), (''count'', JStr ''120''), (''state'', JStr ''idle''),
        (''version'', JStr ''1.2.3''), (''fan'', JBool True)]"

definition demo_heartbeat :: "rat frame_ev" where
  "demo_heartbeat = frame ''{ModeCode:heart_beat}'' 11"

definition demo_update :: "rat frame_ev" where
  "demo_update =
     \<lparr>raw = Text ''{temp:23.5,state:printing}'', rx_time = 12, ack_raises = False,
      cb_raises = True, cb_writes = []\<rparr>"

definition demo_binary_ok :: "rat frame_ev" where
  "demo_binary_ok =
     \<lparr>raw = Binary [0xFF, 0x6F, 0x6B], rx_time = 13, ack_raises = False, cb_raises = False,
      cb_writes = []\<rparr>"

text \<open>
  A binary frame with the bytes of the text \<open>{progress:42}\<close> and a byte \<open>0xFF\<close> among them,
  and a binary frame with the bytes of the heartbeat request.
\<close>

definition demo_binary_update :: "rat frame_ev" where
  "demo_binary_update =
     \<lparr>raw = Binary [0x7B, 0x70, 0x72, 0x6F, 0x67, 0xFF, 0x72, 0x65, 0x73, 0x73, 0x3A, 0x34,
                    0x32, 0x7D],
      rx_time = 14, ack_raises = False, cb_raises = False, cb_writes = []\<rparr>"

text \<open>
  An update with a list in it, whose observer empties the list of its snapshot, and a
  life in which that frame arrives.
\<close>

definition demo_written :: "rat frame_ev" where
  "demo_written =
     \<lparr>raw = Text ''{objects:[1]}'', rx_time = 15, ack_raises = False, cb_raises = False,
      cb_writes = [(''objects'', JList [])]\<rparr>"

definition demo_written_ops :: "rat op list" where
  "demo_written_ops =
     [Start,
      Run [\<lparr>attempt = Connected 10 [frame ''{temp:23.5,state:printing}'' 12, demo_written] Closed,
           jitter = 0.1, wait = TimedOut\<rparr>]]"

text \<open>
  A client with a live socket, and a caller of \<^verbatim>\<open>send_set_retry\<close> who finds no socket at
  first, then a live one, on which \<^verbatim>\<open>ws.send\<close> raises.
\<close>

definition demo_live :: "rat client" where
  "demo_live = session demo_lib 10 [] init"

definition demo_env :: "(rat, string) retry_env" where
  "demo_env =
     \<lparr>at_first = init, first_send = None, at_wait = demo_live, ready_in_time = False,
      at_second = demo_live, second_send = Some ''connection closed''\<rparr>"

text \<open>
  Two callers whose first send breaks on a live socket and whose second send goes out:
  one finds the link still ready when it starts to wait; the other starts to wait on a
  client without a socket and sees the link come back in time.
\<close>

definition demo_ready :: "(rat, string) retry_env" where
  "demo_ready =
     \<lparr>at_first = demo_live, first_send = Some ''connection closed'', at_wait = demo_live,
      ready_in_time = False, at_second = demo_live, second_send = None\<rparr>"

definition demo_recovering :: "(rat, string) retry_env" where
  "demo_recovering =
     \<lparr>at_first = demo_live, first_send = Some ''connection closed'', at_wait = init,
      ready_in_time = True, at_second = demo_live, second_send = None\<rparr>"

text \<open>
  The delays of the specification: each is the least of \<open>current * (1.8 + jitter)\<close> and the
  upper bound, where \<open>current\<close> is the delay before, and the lower bound after a turn that
  connected.
\<close>

fun delays :: "config \<Rightarrow> real \<Rightarrow> 'f round list \<Rightarrow> real list" where
  "delays cfg current [] = []"
| "delays cfg current (r # rs) =
     (let d = min ((if connected (attempt r) then retry_min_backoff cfg else current)
                     * (1.8 + jitter r))
                  (retry_max_backoff cfg)
      in d # delays cfg d rs)"

text \<open>Three attempts in a row that fail.\<close>

definition demo_failures :: "rat round list" where
  "demo_failures =
     [\<lparr>attempt = ConnectRaises, jitter = 0.2, wait = TimedOut\<rparr>,
      \<lparr>attempt = ConnectRaises, jitter = 0, wait = TimedOut\<rparr>,
      \<lparr>attempt = ConnectRaises, jitter = 0.2, wait = TimedOut\<rparr>]"

section \<open>Frames, connections and the loop\<close>

lemma coerce_numbers_lookup:
  "fmlookup (coerce_numbers lib d) k = map_option (coerce_value lib) (fmlookup d k)"
  by (simp add: coerce_numbers_def)

lemma write_nested_scalar: "scalar v \<Longrightarrow> write_nested new v = v"
  by (cases v) (simp_all add: write_nested_def)

lemma observer_write_lookup:
  "fmlookup (observer_write w m) k =
     (if k = fst w then map_option (write_nested (snd w)) (fmlookup m k) else fmlookup m k)"
  by (simp add: observer_write_def split: option.split)

lemma fold_observer_write_None:
  "fmlookup m k = None \<Longrightarrow> fmlookup (fold observer_write writes m) k = None"
proof (induction writes arbitrary: m)
  case Nil
  then show ?case by simp
next
  case (Cons w writes)
  from Cons.prems have "fmlookup (observer_write w m) k = None"
    by (auto simp add: observer_write_lookup)
  then show ?case by (simp add: Cons.IH)
qed

lemma fold_observer_write_scalar:
  "fmlookup m k = Some v \<Longrightarrow> scalar v \<Longrightarrow> fmlookup (fold observer_write writes m) k = Some v"
proof (induction writes arbitrary: m)
  case Nil
  then show ?case by simp
next
  case (Cons w writes)
  from Cons.prems have "fmlookup (observer_write w m) k = Some v"
    by (auto simp add: observer_write_lookup write_nested_scalar)
  with Cons.prems(2) show ?case by (simp add: Cons.IH)
qed

lemma observer_writes_None:
  "fmlookup m k = None \<Longrightarrow> fmlookup (observer_writes ev m) k = None"
  by (simp add: observer_writes_def fold_observer_write_None)

lemma observer_writes_scalar:
  "fmlookup m k = Some v \<Longrightarrow> scalar v \<Longrightarrow> fmlookup (observer_writes ev m) k = Some v"
  by (simp add: observer_writes_def fold_observer_write_scalar)

lemma observer_writes_quiet: "quiet ev \<Longrightarrow> observer_writes ev m = m"
  by (simp add: observer_writes_def quiet_def)

lemma handle_frame_state: "state (handle_frame lib ev c) = after_frame lib ev (state c)"
  by (simp add: handle_frame_def update_of_def after_frame_def log_def Let_def
      split: option.split json.split)

lemma handle_frame_delivered:
  "delivered (handle_frame lib ev c) = delivered c @ seen lib [ev] (state c)"
  by (simp add: handle_frame_def update_of_def log_def Let_def split: option.split json.split)

lemma handle_frame_flags:
  "stop_ev (handle_frame lib ev c) = stop_ev c"
  "connected_once (handle_frame lib ev c) = connected_once c"
  "ws_ready (handle_frame lib ev c) = ws_ready c"
  "ws (handle_frame lib ev c) = ws c"
  "task (handle_frame lib ev c) = task c"
  "slept (handle_frame lib ev c) = slept c"
  "last_rx (handle_frame lib ev c) = rx_time ev"
  by (simp_all add: handle_frame_def log_def Let_def split: option.split json.split)

lemma handle_frame_logged:
  "logged (handle_frame lib ev c) =
     (case update_of lib ev of
        Some d \<Rightarrow> if cb_raises ev then logged c @ [LogOnMessageFailed] else logged c
      | None \<Rightarrow>
          (if frame_text lib (raw ev) = ''ok'' then logged c
           else case json_loads lib (frame_text lib (raw ev)) of
                  None \<Rightarrow> logged c
                | Some (JDict p) \<Rightarrow> logged c
                | Some _ \<Rightarrow> logged c @ [LogUnexpectedFrame]))"
  by (simp add: handle_frame_def update_of_def log_def Let_def split: option.split json.split)

lemma replay_append: "replay lib (xs @ ys) m = replay lib ys (replay lib xs m)"
  by (simp add: replay_def)

lemma replay_Cons: "replay lib (ev # evs) m = replay lib evs (after_frame lib ev m)"
  by (simp add: replay_def)

lemma seen_append: "seen lib (xs @ ys) m = seen lib xs m @ seen lib ys (replay lib xs m)"
  by (induction xs arbitrary: m) (simp_all add: replay_def split: option.split)

lemma fold_handle_frame_state:
  "state (fold (handle_frame lib) evs c) = replay lib evs (state c)"
  by (induction evs arbitrary: c) (simp_all add: replay_def handle_frame_state)

lemma fold_handle_frame_delivered:
  "delivered (fold (handle_frame lib) evs c) = delivered c @ seen lib evs (state c)"
  by (induction evs arbitrary: c)
     (simp_all add: handle_frame_state handle_frame_delivered split: option.split)

lemma fold_handle_frame_flags:
  "stop_ev (fold (handle_frame lib) evs c) = stop_ev c"
  "connected_once (fold (handle_frame lib) evs c) = connected_once c"
  "ws_ready (fold (handle_frame lib) evs c) = ws_ready c"
  "ws (fold (handle_frame lib) evs c) = ws c"
  "task (fold (handle_frame lib) evs c) = task c"
  "slept (fold (handle_frame lib) evs c) = slept c"
  by (induction evs arbitrary: c) (simp_all add: handle_frame_flags)

lemma session_state: "state (session lib now evs c) = replay lib evs (state c)"
  by (simp add: session_def Let_def log_def fold_handle_frame_state)

lemma session_delivered:
  "delivered (session lib now evs c) = delivered c @ seen lib evs (state c)"
  by (simp add: session_def Let_def log_def fold_handle_frame_delivered)

lemma run_attempt_state: "state (run_attempt lib a c) = replay lib (frames_of a) (state c)"
  by (induction lib a c rule: run_attempt.induct)
     (simp_all add: cleanup_def log_def session_state replay_def)

lemma run_attempt_delivered:
  "delivered (run_attempt lib a c) = delivered c @ seen lib (frames_of a) (state c)"
  by (induction lib a c rule: run_attempt.induct)
     (simp_all add: cleanup_def log_def session_delivered)

lemma run_attempt_stop_ev: "stop_ev (run_attempt lib a c) = stop_ev c"
  by (induction lib a c rule: run_attempt.induct)
     (simp_all add: cleanup_def log_def session_def Let_def fold_handle_frame_flags)

lemma updates_append: "updates lib (xs @ ys) = updates lib xs @ updates lib ys"
  by (induction xs) (simp_all add: updates_def split: option.split)

lemma merge_all_append: "merge_all lib (xs @ ys) m = merge_all lib ys (merge_all lib xs m)"
  by (induction xs arbitrary: m) simp_all

lemma snapshots_append:
  "snapshots lib (xs @ ys) m = snapshots lib xs m @ snapshots lib ys (merge_all lib xs m)"
  by (induction xs arbitrary: m) simp_all

lemma loop_state_delivered:
  "state (loop lib cfg rs b c) = replay lib (received (stop_ev c) rs) (state c)
   \<and> delivered (loop lib cfg rs b c) = delivered c @ seen lib (received (stop_ev c) rs) (state c)"
proof (induction rs arbitrary: b c)
  case Nil
  then show ?case by (simp add: received_def replay_def log_def)
next
  case (Cons r rs)
  show ?case
  proof (cases "stop_ev c")
    case True
    then show ?thesis by (simp add: received_def replay_def log_def)
  next
    case False
    show ?thesis
    proof (cases "cancelled (attempt r)")
      case True
      with False show ?thesis
        by (simp add: Let_def received_def log_def run_attempt_state run_attempt_delivered)
    next
      case nc: False
      show ?thesis
      proof (cases "wait r")
        case TimedOut
        with False nc show ?thesis
          by (simp add: Let_def Cons.IH received_def run_attempt_state run_attempt_delivered
              run_attempt_stop_ev replay_append seen_append)
      next
        case StopSet
        with False nc show ?thesis
          by (simp add: Let_def Cons.IH received_def run_attempt_state run_attempt_delivered
              run_attempt_stop_ev replay_append seen_append)
      next
        case WaitCancelled
        with False nc show ?thesis
          by (simp add: Let_def received_def run_attempt_state run_attempt_delivered)
      qed
    qed
  qed
qed

lemma apply_op_state:
  "state (apply_op lib cfg x c) = replay lib (arrivals lib cfg [x] c) (state c)"
  by (cases x) (simp_all add: start_def stop_def Let_def loop_task_def loop_state_delivered replay_def)

lemma apply_op_delivered:
  "delivered (apply_op lib cfg x c) = delivered c @ seen lib (arrivals lib cfg [x] c) (state c)"
  by (cases x) (simp_all add: start_def stop_def Let_def loop_task_def loop_state_delivered)

lemma arrivals_Cons:
  "arrivals lib cfg (x # xs) c =
     arrivals lib cfg [x] c @ arrivals lib cfg xs (apply_op lib cfg x c)"
  by (cases x) simp_all

lemma run_state: "state (run lib cfg ops c) = replay lib (arrivals lib cfg ops c) (state c)"
proof (induction ops arbitrary: c)
  case Nil
  then show ?case by (simp add: run_def replay_def)
next
  case (Cons x xs)
  have "state (run lib cfg (x # xs) c) = state (run lib cfg xs (apply_op lib cfg x c))"
    by (simp add: run_def)
  also have "\<dots> = replay lib (arrivals lib cfg xs (apply_op lib cfg x c))
      (state (apply_op lib cfg x c))"
    by (rule Cons.IH)
  also have "\<dots> = replay lib (arrivals lib cfg (x # xs) c) (state c)"
    by (simp add: arrivals_Cons [of lib cfg x xs c] apply_op_state replay_append)
  finally show ?case .
qed

lemma run_delivered:
  "delivered (run lib cfg ops c) = delivered c @ seen lib (arrivals lib cfg ops c) (state c)"
proof (induction ops arbitrary: c)
  case Nil
  then show ?case by (simp add: run_def)
next
  case (Cons x xs)
  have "delivered (run lib cfg (x # xs) c) = delivered (run lib cfg xs (apply_op lib cfg x c))"
    by (simp add: run_def)
  also have "\<dots> = delivered (apply_op lib cfg x c) @
      seen lib (arrivals lib cfg xs (apply_op lib cfg x c)) (state (apply_op lib cfg x c))"
    by (rule Cons.IH)
  also have "\<dots> = delivered c @ seen lib (arrivals lib cfg (x # xs) c) (state c)"
    by (simp add: arrivals_Cons [of lib cfg x xs c] apply_op_state apply_op_delivered
        seen_append)
  finally show ?case .
qed

lemma replay_quiet:
  "list_all quiet evs \<Longrightarrow> replay lib evs m = merge_all lib (updates lib evs) m"
  by (induction evs arbitrary: m)
     (simp_all add: replay_def updates_def after_frame_def observer_writes_quiet
        split: option.split)

lemma seen_quiet:
  "list_all quiet evs \<Longrightarrow> seen lib evs m = snapshots lib (updates lib evs) m"
  by (induction evs arbitrary: m)
     (simp_all add: updates_def after_frame_def observer_writes_quiet split: option.split)

lemma merge_all_lookup: "fmlookup (merge_all lib ds m) k = last_writer lib ds m k"
proof (induction ds rule: rev_induct)
  case Nil
  then show ?case by (simp add: last_writer_def)
next
  case (snoc d ds)
  then show ?case
    by (simp add: merge_all_append last_writer_def coerce_numbers_def)
qed

lemma last_writer_snoc:
  "last_writer lib (ds @ [d]) m k =
     (if k |\<in>| fmdom d then map_option (coerce_value lib) (fmlookup d k)
      else last_writer lib ds m k)"
  by (simp add: last_writer_def)

lemma replay_lookup:
  "(last_writer lib (updates lib evs) m k = None \<longrightarrow> fmlookup (replay lib evs m) k = None)
   \<and> (last_writer lib (updates lib evs) m k = Some v \<and> scalar v
        \<longrightarrow> fmlookup (replay lib evs m) k = Some v)"
proof (induction evs arbitrary: v rule: rev_induct)
  case Nil
  then show ?case by (simp add: last_writer_def updates_def replay_def)
next
  case (snoc ev evs)
  show ?case
  proof (cases "update_of lib ev")
    case None
    then have "updates lib (evs @ [ev]) = updates lib evs"
      by (simp add: updates_append) (simp add: updates_def)
    with None snoc show ?thesis
      by (simp add: replay_append replay_def after_frame_def)
  next
    case (Some d)
    then have u: "updates lib (evs @ [ev]) = updates lib evs @ [d]"
      by (simp add: updates_append) (simp add: updates_def)
    have r: "replay lib (evs @ [ev]) m
        = observer_writes ev (replay lib evs m ++\<^sub>f coerce_numbers lib d)"
      using Some by (simp add: replay_append) (simp add: replay_def after_frame_def)
    show ?thesis
    proof (intro conjI impI)
      assume n: "last_writer lib (updates lib (evs @ [ev])) m k = None"
      then have "fmlookup (replay lib evs m ++\<^sub>f coerce_numbers lib d) k = None"
        using snoc [of v]
        by (auto simp add: u coerce_numbers_def last_writer_snoc split: if_splits)
      then show "fmlookup (replay lib (evs @ [ev]) m) k = None"
        by (simp only: r observer_writes_None)
    next
      assume s: "last_writer lib (updates lib (evs @ [ev])) m k = Some v \<and> scalar v"
      then have "fmlookup (replay lib evs m ++\<^sub>f coerce_numbers lib d) k = Some v"
        using snoc [of v]
        by (auto simp add: u coerce_numbers_def last_writer_snoc split: if_splits)
      with s show "fmlookup (replay lib (evs @ [ev]) m) k = Some v"
        by (simp only: r observer_writes_scalar)
    qed
  qed
qed

lemma observer_write_dom: "fmdom (observer_write w m) = fmdom m"
  by (auto simp add: observer_write_def fmlookup_dom_iff split: option.split)

lemma fold_observer_write_dom: "fmdom (fold observer_write writes m) = fmdom m"
  by (induction writes arbitrary: m) (simp_all add: observer_write_dom)

lemma observer_writes_dom: "fmdom (observer_writes ev m) = fmdom m"
  by (simp add: observer_writes_def fold_observer_write_dom)

lemma replay_dom: "fmdom (replay lib evs m) = fmdom (merge_all lib (updates lib evs) m)"
proof (induction evs rule: rev_induct)
  case Nil
  then show ?case by (simp add: replay_def updates_def)
next
  case (snoc ev evs)
  show ?case
  proof (cases "update_of lib ev")
    case None
    then have "updates lib (evs @ [ev]) = updates lib evs"
      by (simp add: updates_append) (simp add: updates_def)
    with None snoc show ?thesis
      by (simp add: replay_append replay_def after_frame_def)
  next
    case (Some d)
    then have "updates lib (evs @ [ev]) = updates lib evs @ [d]"
      by (simp add: updates_append) (simp add: updates_def)
    moreover have "replay lib (evs @ [ev]) m
        = observer_writes ev (replay lib evs m ++\<^sub>f coerce_numbers lib d)"
      using Some by (simp add: replay_append) (simp add: replay_def after_frame_def)
    ultimately show ?thesis
      using snoc by (simp add: merge_all_append observer_writes_dom)
  qed
qed

lemma snapshots_Nil_iff: "snapshots lib ds m = [] \<longleftrightarrow> ds = []"
  by (cases ds) simp_all

lemma snapshots_last: "ds \<noteq> [] \<Longrightarrow> last (snapshots lib ds m) = merge_all lib ds m"
proof (induction ds arbitrary: m)
  case Nil
  then show ?case by simp
next
  case (Cons d ds)
  then show ?case by (cases ds) (simp_all add: snapshots_Nil_iff)
qed

lemmas demo_simps =
  demo_ops_def demo_rounds_def demo_lib_def demo_cfg_def frame_def init_def run_def
  loop_task_def start_def stop_def session_def cleanup_def log_def handle_frame_def
  frame_text_def update_of_def updates_def received_def coerce_numbers_def coerce_value_def
  observer_writes_def sleep_for_def Let_def

lemma demo_arrivals:
  "arrivals demo_lib demo_cfg demo_ops init =
     [frame ''{ModeCode:heart_beat}'' 11, frame ''{temp:23.5,state:printing}'' 12,
      frame ''{progress:42}'' 21]"
  by (simp add: demo_ops_def demo_rounds_def received_def start_def init_def)

lemma demo_written_updates:
  "updates demo_lib (arrivals demo_lib demo_cfg demo_written_ops init) =
     [fmap_of_list [(''temp'', JStr ''23.5''), (''state'', JStr ''printing'')],
      fmap_of_list [(''objects'', JList [JInt 1])]]"
  by (simp add: demo_simps demo_written_ops_def demo_written_def)

lemma demo_written_state:
  "state (run demo_lib demo_cfg demo_written_ops init)
     = observer_writes demo_written
         (fmempty
          ++\<^sub>f fmmap (coerce_value demo_lib)
               (fmap_of_list [(''temp'', JStr ''23.5''), (''state'', JStr ''printing'')])
          ++\<^sub>f fmmap (coerce_value demo_lib) (fmap_of_list [(''objects'', JList [JInt 1])]))"
  by (simp add: run_state demo_written_ops_def received_def start_def init_def replay_def
      after_frame_def update_of_def frame_text_def frame_def demo_written_def demo_lib_def
      coerce_numbers_def observer_writes_def)

lemma demo_updates:
  "updates demo_lib (arrivals demo_lib demo_cfg demo_ops init) =
     [fmap_of_list [(''temp'', JStr ''23.5''), (''state'', JStr ''printing'')],
      fmap_of_list [(''progress'', JStr ''42'')]]"
  by (simp add: demo_simps)

lemma demo_state:
  "state (run demo_lib demo_cfg demo_ops init)
     = fmempty ++\<^sub>f fmmap (coerce_value demo_lib) (fmap_of_list [(''temp'', JStr ''23.5''), (''state'', JStr ''printing'')])
        ++\<^sub>f fmmap (coerce_value demo_lib) (fmap_of_list [(''progress'', JStr ''42'')])"
  by (simp add: demo_simps)

lemma demo_run_latch: "connected_once (run demo_lib demo_cfg demo_ops init)"
  by (simp add: demo_simps)

section \<open>Signals, the clock and the backoff\<close>

lemma fold_handle_frame_last_rx:
  "last_rx (fold (handle_frame lib) evs c) = (if evs = [] then last_rx c else rx_time (last evs))"
  by (induction evs arbitrary: c) (simp_all add: handle_frame_flags)

lemma session_last_rx:
  "last_rx (session lib now evs c) = (if evs = [] then now else rx_time (last evs))"
  by (simp add: session_def Let_def log_def fold_handle_frame_last_rx)

lemma session_signals:
  "connected_once (session lib now evs c)" "ws_ready (session lib now evs c)"
  by (simp_all add: session_def Let_def log_def fold_handle_frame_flags)

lemma run_attempt_connected_once:
  "connected_once (run_attempt lib a c) = (connected a \<or> connected_once c)"
  by (induction lib a c rule: run_attempt.induct)
     (simp_all add: cleanup_def log_def session_signals)

lemma run_attempt_ws_ready: "\<not> ws_ready (run_attempt lib a c)"
  by (induction lib a c rule: run_attempt.induct) (simp_all add: cleanup_def)

lemma run_attempt_last_rx:
  "last_rx (run_attempt lib a c) =
     (if connected a then (if frames_of a = [] then (case a of Connected now evs e \<Rightarrow> now)
                           else rx_time (last (frames_of a)))
      else last_rx c)"
  by (induction lib a c rule: run_attempt.induct)
     (simp_all add: cleanup_def log_def session_last_rx)

lemma run_attempt_slept: "slept (run_attempt lib a c) = slept c"
  by (induction lib a c rule: run_attempt.induct)
     (simp_all add: cleanup_def log_def session_def Let_def fold_handle_frame_flags)

lemma loop_preserves:
  assumes step: "\<And>a c. P c \<Longrightarrow> P (run_attempt lib a c)"
    and logged: "\<And>c l. P c \<Longrightarrow> P (c\<lparr>logged := l\<rparr>)"
    and slept: "\<And>c s. P c \<Longrightarrow> P (c\<lparr>slept := s\<rparr>)"
    and stop: "\<And>c v. P c \<Longrightarrow> P (c\<lparr>stop_ev := v\<rparr>)"
  shows "P c \<Longrightarrow> P (loop lib cfg rs b c)"
proof (induction rs arbitrary: b c)
  case Nil
  then show ?case by (simp add: log_def logged)
next
  case (Cons r rs)
  have 1: "P (run_attempt lib (attempt r) c)"
    using Cons.prems by (rule step)
  have 2: "P ((run_attempt lib (attempt r) c)\<lparr>slept := s\<rparr>)" for s
    using 1 by (rule slept)
  have 3: "P ((run_attempt lib (attempt r) c)\<lparr>slept := s, stop_ev := v\<rparr>)" for s v
    using 2 by (rule stop)
  show ?case
    using Cons.prems 1 2 3
    by (cases "wait r") (simp_all add: Let_def log_def logged Cons.IH)
qed

lemma loop_latch: "connected_once c \<Longrightarrow> connected_once (loop lib cfg rs b c)"
  by (rule loop_preserves [where P = connected_once]) (simp_all add: run_attempt_connected_once)

lemma loop_last_rx_zero:
  "connected_once c \<or> last_rx c = 0 \<Longrightarrow>
   connected_once (loop lib cfg rs b c) \<or> last_rx (loop lib cfg rs b c) = 0"
  by (rule loop_preserves [where P = "\<lambda>c. connected_once c \<or> last_rx c = 0"])
     (auto simp add: run_attempt_connected_once run_attempt_last_rx)

lemma apply_op_latch: "connected_once c \<Longrightarrow> connected_once (apply_op lib cfg x c)"
  by (cases x) (simp_all add: start_def stop_def Let_def loop_task_def loop_latch)

lemma apply_op_last_rx_zero:
  "connected_once c \<or> last_rx c = 0 \<Longrightarrow>
   connected_once (apply_op lib cfg x c) \<or> last_rx (apply_op lib cfg x c) = 0"
  by (cases x) (simp_all add: start_def stop_def Let_def loop_task_def loop_last_rx_zero)

lemma run_latch: "connected_once c \<Longrightarrow> connected_once (run lib cfg ops c)"
  unfolding run_def by (induction ops arbitrary: c) (simp_all add: apply_op_latch)

lemma run_append: "run lib cfg (xs @ ys) c = run lib cfg ys (run lib cfg xs c)"
  by (simp add: run_def)

lemma latched_during_end:
  "connected_once (run lib cfg during c) \<Longrightarrow> latched_during lib cfg during c"
  unfolding latched_during_def list_ex_iff
  by (rule bexI [where x = "length during"]) simp_all

lemma latched_during_later:
  assumes "latched_during lib cfg during c"
  shows "connected_once (run lib cfg (during @ ops) c)"
proof -
  from assms obtain n where n: "connected_once (run lib cfg (take n during) c)"
    unfolding latched_during_def list_ex_iff by blast
  have "during @ ops = take n during @ (drop n during @ ops)"
    by simp
  then have "run lib cfg (during @ ops) c
      = run lib cfg (drop n during @ ops) (run lib cfg (take n during) c)"
    by (simp only: run_append)
  with n show ?thesis
    by (simp add: run_latch)
qed

lemma run_last_rx_zero:
  "connected_once c \<or> last_rx c = 0 \<Longrightarrow>
   connected_once (run lib cfg ops c) \<or> last_rx (run lib cfg ops c) = 0"
  unfolding run_def
proof (induction ops arbitrary: c)
  case Nil
  then show ?case by simp
next
  case (Cons x xs)
  from Cons.prems have "connected_once (apply_op lib cfg x c) \<or> last_rx (apply_op lib cfg x c) = 0"
    by (rule apply_op_last_rx_zero)
  then show ?case by (simp add: Cons.IH)
qed

lemma sleep_for_le_max: "sleep_for cfg b j \<le> retry_max_backoff cfg"
  by (simp add: sleep_for_def)

lemma sleep_for_grows:
  assumes "0 \<le> b" and "0 \<le> j"
  shows "min b (retry_max_backoff cfg) \<le> sleep_for cfg b j"
proof -
  have "b * (1.8 + j) = b + b * (0.8 + j)"
    by (simp add: algebra_simps)
  moreover have "0 \<le> b * (0.8 + j)"
    using assms by simp
  ultimately have "b \<le> b * (1.8 + j)"
    by linarith
  then show ?thesis
    by (simp add: sleep_for_def min_def)
qed

lemma sleep_for_nonneg:
  "0 \<le> b \<Longrightarrow> 0 \<le> j \<Longrightarrow> 0 \<le> retry_max_backoff cfg \<Longrightarrow> 0 \<le> sleep_for cfg b j"
  by (simp add: sleep_for_def)

lemma delays_Cons:
  "delays cfg b (r # rs) =
     sleep_for cfg (if connected (attempt r) then retry_min_backoff cfg else b) (jitter r)
     # delays cfg
         (sleep_for cfg (if connected (attempt r) then retry_min_backoff cfg else b) (jitter r))
         rs"
  by (simp add: sleep_for_def Let_def)

lemma loop_slept:
  assumes "\<forall>r \<in> set rs. \<not> cancelled (attempt r) \<and> wait r = TimedOut"
  shows "\<not> stop_ev c \<Longrightarrow> slept (loop lib cfg rs b c) = slept c @ delays cfg b rs"
  using assms
proof (induction rs arbitrary: b c)
  case Nil
  then show ?case by simp
next
  case (Cons r rs)
  let ?b = "if connected (attempt r) then retry_min_backoff cfg else b"
  let ?d = "sleep_for cfg ?b (jitter r)"
  let ?c = "(run_attempt lib (attempt r) c)\<lparr>slept := slept (run_attempt lib (attempt r) c) @ [?d]\<rparr>"
  have d: "min ?d (retry_max_backoff cfg) = ?d"
    by (simp add: sleep_for_le_max)
  have "loop lib cfg (r # rs) b c = loop lib cfg rs ?d ?c"
    using Cons.prems by (simp add: Let_def d)
  moreover have "slept (loop lib cfg rs ?d ?c) = slept ?c @ delays cfg ?d rs"
    using Cons.prems by (intro Cons.IH) (simp_all add: run_attempt_stop_ev)
  ultimately show ?case
    by (simp add: run_attempt_slept delays_Cons del: delays.simps)
qed

lemma delays_le_max: "\<forall>d \<in> set (delays cfg b rs). d \<le> retry_max_backoff cfg"
  by (induction rs arbitrary: b) (simp_all add: delays_Cons sleep_for_le_max del: delays.simps(2))

lemma delays_lower:
  assumes "0 \<le> retry_max_backoff cfg"
    and "\<forall>r \<in> set rs. \<not> connected (attempt r) \<and> 0 \<le> jitter r"
  shows "0 \<le> b \<Longrightarrow> \<forall>d \<in> set (delays cfg b rs). min b (retry_max_backoff cfg) \<le> d"
  using assms(2)
proof (induction rs arbitrary: b)
  case Nil
  then show ?case by simp
next
  case (Cons r rs)
  let ?d = "sleep_for cfg b (jitter r)"
  have 1: "min b (retry_max_backoff cfg) \<le> ?d"
    using Cons.prems by (simp add: sleep_for_grows)
  have 2: "0 \<le> ?d"
    using Cons.prems assms(1) by (simp add: sleep_for_nonneg)
  have "\<forall>d \<in> set (delays cfg ?d rs). min ?d (retry_max_backoff cfg) \<le> d"
    using 2 Cons.prems by (intro Cons.IH) simp_all
  then have "\<forall>d \<in> set (delays cfg ?d rs). min b (retry_max_backoff cfg) \<le> d"
    using 1 by (auto simp add: sleep_for_le_max min_absorb1)
  then show ?case
    using 1 Cons.prems by (simp add: delays_Cons del: delays.simps)
qed

lemma delays_sorted:
  assumes "0 \<le> retry_max_backoff cfg"
    and "\<forall>r \<in> set rs. \<not> connected (attempt r) \<and> 0 \<le> jitter r"
  shows "0 \<le> b \<Longrightarrow> sorted (delays cfg b rs)"
  using assms(2)
proof (induction rs arbitrary: b)
  case Nil
  then show ?case by simp
next
  case (Cons r rs)
  let ?d = "sleep_for cfg b (jitter r)"
  have 2: "0 \<le> ?d"
    using Cons.prems assms(1) by (simp add: sleep_for_nonneg)
  have "\<forall>d \<in> set (delays cfg ?d rs). min ?d (retry_max_backoff cfg) \<le> d"
    using assms(1) _ 2 by (rule delays_lower) (use Cons.prems in simp)
  then have 3: "\<forall>d \<in> set (delays cfg ?d rs). ?d \<le> d"
    by (simp add: sleep_for_le_max min_absorb1)
  have "sorted (delays cfg ?d rs)"
    using 2 Cons.prems by (intro Cons.IH) simp_all
  then show ?case
    using 3 Cons.prems by (simp add: delays_Cons del: delays.simps)
qed

section \<open>The sender\<close>

lemma send_json_tried: "length (snd (send_json lib outcome obj c)) \<le> 1"
  by (simp add: send_json_def split: option.split)

lemma send_json_not_link:
  "fst (send_json lib outcome obj c) \<noteq> Inl (LinkUnavailable t cause)"
  by (simp add: send_json_def split: option.split)

lemma send_set_retry_cases:
  "send_set_retry lib t params env =
     (case fst (send_json lib (first_send env) (set_request params) (at_first env)) of
        Inr u \<Rightarrow> (Inr (), snd (send_json lib (first_send env) (set_request params) (at_first env)))
      | Inl e \<Rightarrow>
          if wait_connected t (ready_in_time env) (at_wait env)
          then (fst (send_json lib (second_send env) (set_request params) (at_second env)),
                snd (send_json lib (first_send env) (set_request params) (at_first env))
                @ snd (send_json lib (second_send env) (set_request params) (at_second env)))
          else (Inl (LinkUnavailable t e),
                snd (send_json lib (first_send env) (set_request params) (at_first env))))"
  by (simp add: send_set_retry_def Let_def split: prod.split sum.split)

section \<open>The claims\<close>

text \<open>
  C1, as the code has it. Whatever the client lives through (calls of \<^verbatim>\<open>start()\<close> and
  \<^verbatim>\<open>stop()\<close>, failed attempts, any number of connections and their ends), as long as no
  observer writes into a list or a mapping of a snapshot it was given, the merged state is
  the starting state with the coerced mappings of all state-update frames laid over it in
  the order of arrival; key by key that is the coerced value of the last frame that held
  the key. Each update passes one snapshot to \<^verbatim>\<open>on_message\<close>, and the last snapshot passed
  is the merged state. Nothing but an update frame and the observer's writes changes the
  state, so no disconnect or reconnect resets it. Whatever the observers write, the state
  has the keys of that merge, and a key whose last written value is a string, a number,
  a truth value or \<^verbatim>\<open>None\<close> maps to that value.
\<close>

theorem C1_last_writer_wins:
  "(list_all quiet (arrivals lib cfg ops c) \<longrightarrow>
      state (run lib cfg ops c) = merge_all lib (updates lib (arrivals lib cfg ops c)) (state c)
      \<and> fmlookup (state (run lib cfg ops c)) k
          = last_writer lib (updates lib (arrivals lib cfg ops c)) (state c) k
      \<and> delivered (run lib cfg ops c)
          = delivered c @ snapshots lib (updates lib (arrivals lib cfg ops c)) (state c)
      \<and> (updates lib (arrivals lib cfg ops c) \<noteq> []
           \<longrightarrow> last (delivered (run lib cfg ops c)) = state (run lib cfg ops c)))
   \<and> fmdom (state (run lib cfg ops c))
       = fmdom (merge_all lib (updates lib (arrivals lib cfg ops c)) (state c))
   \<and> (last_writer lib (updates lib (arrivals lib cfg ops c)) (state c) k = None
        \<longrightarrow> fmlookup (state (run lib cfg ops c)) k = None)
   \<and> (last_writer lib (updates lib (arrivals lib cfg ops c)) (state c) k = Some v \<and> scalar v
        \<longrightarrow> fmlookup (state (run lib cfg ops c)) k = Some v)"
proof -
  let ?evs = "arrivals lib cfg ops c"
  have "state (run lib cfg ops c) = merge_all lib (updates lib ?evs) (state c)
      \<and> fmlookup (state (run lib cfg ops c)) k = last_writer lib (updates lib ?evs) (state c) k
      \<and> delivered (run lib cfg ops c) = delivered c @ snapshots lib (updates lib ?evs) (state c)
      \<and> (updates lib ?evs \<noteq> []
           \<longrightarrow> last (delivered (run lib cfg ops c)) = state (run lib cfg ops c))"
    if "list_all quiet ?evs"
    using that
    by (simp add: run_state run_delivered replay_quiet seen_quiet merge_all_lookup
        snapshots_last snapshots_Nil_iff)
  moreover have "fmdom (state (run lib cfg ops c))
      = fmdom (merge_all lib (updates lib ?evs) (state c))"
    by (simp add: run_state replay_dom)
  moreover have "last_writer lib (updates lib ?evs) (state c) k = None
      \<longrightarrow> fmlookup (state (run lib cfg ops c)) k = None"
    using replay_lookup [of lib ?evs "state c" k v] by (simp add: run_state)
  moreover have "last_writer lib (updates lib ?evs) (state c) k = Some v \<and> scalar v
      \<longrightarrow> fmlookup (state (run lib cfg ops c)) k = Some v"
    using replay_lookup [of lib ?evs "state c" k v] by (simp add: run_state)
  ultimately show ?thesis by blast
qed

theorem C1_witness:
  "list_all quiet (arrivals demo_lib demo_cfg demo_ops init)
   \<and> updates demo_lib (arrivals demo_lib demo_cfg demo_ops init) \<noteq> []
   \<and> last (delivered (run demo_lib demo_cfg demo_ops init))
       = state (run demo_lib demo_cfg demo_ops init)
   \<and> fmlookup (last (delivered (run demo_lib demo_cfg demo_ops init))) ''temp''
       = Some (JFloat (47 / 2))
   \<and> fmlookup (last (delivered (run demo_lib demo_cfg demo_ops init))) ''state''
       = Some (JStr ''printing'')
   \<and> fmlookup (last (delivered (run demo_lib demo_cfg demo_ops init))) ''progress''
       = Some (JInt 42)
   \<and> fmlookup (state (run demo_lib demo_cfg demo_written_ops init)) ''state''
       = Some (JStr ''printing'')
   \<and> fmlookup (state (run demo_lib demo_cfg demo_written_ops init)) ''bed'' = None"
proof -
  have q: "list_all quiet (arrivals demo_lib demo_cfg demo_ops init)"
    by (simp add: demo_arrivals quiet_def frame_def)
  have ne: "updates demo_lib (arrivals demo_lib demo_cfg demo_ops init) \<noteq> []"
    by (simp add: demo_updates)
  from q ne C1_last_writer_wins [of demo_lib demo_cfg demo_ops init "''temp''"]
  have eq: "last (delivered (run demo_lib demo_cfg demo_ops init))
      = state (run demo_lib demo_cfg demo_ops init)"
    by blast
  have w1: "last_writer demo_lib
        (updates demo_lib (arrivals demo_lib demo_cfg demo_written_ops init)) (state init)
        ''state'' = Some (JStr ''printing'') \<and> scalar (JStr ''printing'' :: rat json)"
    by (simp add: demo_written_updates last_writer_def)
       (simp add: demo_lib_def coerce_value_def)
  have w2: "last_writer demo_lib
        (updates demo_lib (arrivals demo_lib demo_cfg demo_written_ops init)) (state init)
        ''bed'' = None"
    by (simp add: demo_written_updates last_writer_def) (simp add: init_def)
  from w1 C1_last_writer_wins [of demo_lib demo_cfg demo_written_ops init "''state''"
      "JStr ''printing''"]
  have s1: "fmlookup (state (run demo_lib demo_cfg demo_written_ops init)) ''state''
      = Some (JStr ''printing'')"
    by blast
  from w2 C1_last_writer_wins [of demo_lib demo_cfg demo_written_ops init "''bed''"]
  have s2: "fmlookup (state (run demo_lib demo_cfg demo_written_ops init)) ''bed'' = None"
    by blast
  show ?thesis
    using q ne eq s1 s2 by (simp add: demo_state) (simp add: demo_lib_def coerce_value_def)
qed

text \<open>
  C1 as it is written holds for every sequence of frames. An update brings a list under
  the key \<open>objects\<close> and its observer empties the list of its snapshot: the state then
  holds the empty list under that key, and not the value of the last frame that held it.
\<close>

theorem C1_counterexample:
  "fmlookup (state (run demo_lib demo_cfg demo_written_ops init)) ''objects'' = Some (JList [])
   \<and> last_writer demo_lib
        (updates demo_lib (arrivals demo_lib demo_cfg demo_written_ops init)) (state init)
        ''objects'' = Some (JList [JInt 1])"
  by (simp add: demo_written_state demo_written_updates last_writer_def)
     (simp add: demo_lib_def coerce_value_def observer_writes_def observer_write_def
        write_nested_def demo_written_def)

text \<open>
  C2. \<^verbatim>\<open>_coerce_numbers\<close> keeps the keys of the mapping. A string value with a dot becomes
  the float that \<^verbatim>\<open>float\<close> returns for it, a string value without a dot becomes the integer
  that \<^verbatim>\<open>int\<close> returns for it, a string on which the conversion raises stays the string it
  was, and a value that is not a string is left as it is.
\<close>

theorem C2_coerce_numbers:
  "fmdom (coerce_numbers lib d) = fmdom d
   \<and> (fmlookup d k = Some (JStr s) \<and> CHR ''.'' \<in> set s \<and> py_float lib s = Some x
        \<longrightarrow> fmlookup (coerce_numbers lib d) k = Some (JFloat x))
   \<and> (fmlookup d k = Some (JStr s) \<and> CHR ''.'' \<notin> set s \<and> py_int lib s = Some n
        \<longrightarrow> fmlookup (coerce_numbers lib d) k = Some (JInt n))
   \<and> (fmlookup d k = Some (JStr s) \<and> CHR ''.'' \<in> set s \<and> py_float lib s = None
        \<longrightarrow> fmlookup (coerce_numbers lib d) k = Some (JStr s))
   \<and> (fmlookup d k = Some (JStr s) \<and> CHR ''.'' \<notin> set s \<and> py_int lib s = None
        \<longrightarrow> fmlookup (coerce_numbers lib d) k = Some (JStr s))
   \<and> (fmlookup d k = Some v \<and> (\<forall>t. v \<noteq> JStr t)
        \<longrightarrow> fmlookup (coerce_numbers lib d) k = Some v)
   \<and> (fmlookup d k = None \<longrightarrow> fmlookup (coerce_numbers lib d) k = None)"
proof -
  have "fmdom (coerce_numbers lib d) = fmdom d"
    by (simp add: coerce_numbers_def)
  moreover have "fmlookup d k = Some v \<Longrightarrow> \<forall>t. v \<noteq> JStr t \<Longrightarrow>
      fmlookup (coerce_numbers lib d) k = Some v"
    by (cases v) (simp_all add: coerce_numbers_lookup coerce_value_def)
  ultimately show ?thesis
    by (simp add: coerce_numbers_lookup coerce_value_def)
qed

theorem C2_witness:
  "fmlookup (coerce_numbers demo_lib demo_dict) ''temp'' = Some (JFloat (47 / 2))
   \<and> fmlookup (coerce_numbers demo_lib demo_dict) ''count'' = Some (JInt 120)
   \<and> fmlookup (coerce_numbers demo_lib demo_dict) ''state'' = Some (JStr ''idle'')
   \<and> fmlookup (coerce_numbers demo_lib demo_dict) ''version'' = Some (JStr ''1.2.3'')
   \<and> fmlookup (coerce_numbers demo_lib demo_dict) ''fan'' = Some (JBool True)
   \<and> fmlookup (coerce_numbers demo_lib demo_dict) ''bed'' = None"
proof -
  have temp: "fmlookup demo_dict ''temp'' = Some (JStr ''23.5'') \<and> CHR ''.'' \<in> set ''23.5''
      \<and> py_float demo_lib ''23.5'' = Some (47 / 2)"
    by (simp add: demo_dict_def demo_lib_def)
  have count: "fmlookup demo_dict ''count'' = Some (JStr ''120'') \<and> CHR ''.'' \<notin> set ''120''
      \<and> py_int demo_lib ''120'' = Some 120"
    by (simp add: demo_dict_def demo_lib_def)
  have idle: "fmlookup demo_dict ''state'' = Some (JStr ''idle'') \<and> CHR ''.'' \<notin> set ''idle''
      \<and> py_int demo_lib ''idle'' = None"
    by (simp add: demo_dict_def demo_lib_def)
  have version: "fmlookup demo_dict ''version'' = Some (JStr ''1.2.3'')
      \<and> CHR ''.'' \<in> set ''1.2.3'' \<and> py_float demo_lib ''1.2.3'' = None"
    by (simp add: demo_dict_def demo_lib_def)
  have fan: "fmlookup demo_dict ''fan'' = Some (JBool True) \<and> (\<forall>t. JBool True \<noteq> JStr t)"
    by (simp add: demo_dict_def)
  have bed: "fmlookup demo_dict ''bed'' = None"
    by (simp add: demo_dict_def)
  from temp C2_coerce_numbers [of demo_lib demo_dict "''temp''" "''23.5''" "47 / 2"]
  have 1: "fmlookup (coerce_numbers demo_lib demo_dict) ''temp'' = Some (JFloat (47 / 2))"
    by blast
  from count C2_coerce_numbers [of demo_lib demo_dict "''count''" "''120''" _ 120]
  have 2: "fmlookup (coerce_numbers demo_lib demo_dict) ''count'' = Some (JInt 120)"
    by blast
  from idle C2_coerce_numbers [of demo_lib demo_dict "''state''" "''idle''"]
  have 3: "fmlookup (coerce_numbers demo_lib demo_dict) ''state'' = Some (JStr ''idle'')"
    by blast
  from version C2_coerce_numbers [of demo_lib demo_dict "''version''" "''1.2.3''"]
  have 4: "fmlookup (coerce_numbers demo_lib demo_dict) ''version'' = Some (JStr ''1.2.3'')"
    by blast
  from fan C2_coerce_numbers [of demo_lib demo_dict "''fan''" _ _ _ "JBool True"]
  have 5: "fmlookup (coerce_numbers demo_lib demo_dict) ''fan'' = Some (JBool True)"
    by blast
  from bed C2_coerce_numbers [of demo_lib demo_dict "''bed''"]
  have 6: "fmlookup (coerce_numbers demo_lib demo_dict) ''bed'' = None"
    by blast
  from 1 2 3 4 5 6 show ?thesis by blast
qed

text \<open>
  C5. A frame that parses to a mapping whose \<^verbatim>\<open>ModeCode\<close> is \<^verbatim>\<open>heart_beat\<close> makes the
  loop call \<^verbatim>\<open>ws.send\<close> exactly once, with the bare text \<^verbatim>\<open>ok\<close>; the merged state is left
  as it was and \<^verbatim>\<open>on_message\<close> is not called: apart from the send, only the time of the last
  receipt changes. (The text \<^verbatim>\<open>ok\<close> itself is dropped before it is parsed; it is no JSON
  text, which the third premise says.)
\<close>

theorem C5_heartbeat:
  assumes "json_loads lib (frame_text lib (raw ev)) = Some (JDict payload)"
    and "fmlookup payload ''ModeCode'' = Some (JStr ''heart_beat'')"
    and "frame_text lib (raw ev) \<noteq> ''ok''"
  shows "sends (handle_frame lib ev c) = sends c @ [(''ok'', \<not> ack_raises ev)]
    \<and> state (handle_frame lib ev c) = state c
    \<and> delivered (handle_frame lib ev c) = delivered c
    \<and> handle_frame lib ev c
        = c\<lparr>last_rx := rx_time ev, sends := sends c @ [(''ok'', \<not> ack_raises ev)]\<rparr>"
  using assms by (simp add: handle_frame_def Let_def)

theorem C5_witness:
  "sends (handle_frame demo_lib demo_heartbeat init) = [(''ok'', True)]
   \<and> state (handle_frame demo_lib demo_heartbeat init) = fmempty
   \<and> delivered (handle_frame demo_lib demo_heartbeat init) = []"
proof -
  have 1: "json_loads demo_lib (frame_text demo_lib (raw demo_heartbeat))
      = Some (JDict (fmap_of_list [(''ModeCode'', JStr ''heart_beat'')]))"
    by (simp add: demo_lib_def demo_heartbeat_def frame_def frame_text_def)
  have 2: "fmlookup (fmap_of_list [(''ModeCode'', JStr ''heart_beat'')]) ''ModeCode''
      = Some (JStr ''heart_beat'' :: rat json)"
    by simp
  have 3: "frame_text demo_lib (raw demo_heartbeat) \<noteq> ''ok''"
    by (simp add: demo_heartbeat_def frame_def frame_text_def)
  have 4: "\<not> ack_raises demo_heartbeat"
    by (simp add: demo_heartbeat_def frame_def)
  from C5_heartbeat [OF 1 2 3, of init] 4 show ?thesis
    by (simp add: init_def)
qed

text \<open>
  C6. When \<^verbatim>\<open>on_message\<close> raises on a state-update frame, the update is merged all the
  same and the snapshot was passed, the failure is logged, and the receive loop goes on:
  the state and the snapshots at the end of the connection are those of all its frames,
  the ones after the failure too. What is kept is the merge with whatever the observer
  wrote into its snapshot before it raised; with observers that write nothing, it is the
  merge of the update mappings.
\<close>

theorem C6_callback_failure:
  assumes "update_of lib ev = Some d" and "cb_raises ev"
  shows "state (handle_frame lib ev c) = observer_writes ev (state c ++\<^sub>f coerce_numbers lib d)
    \<and> delivered (handle_frame lib ev c) = delivered c @ [state c ++\<^sub>f coerce_numbers lib d]
    \<and> logged (handle_frame lib ev c) = logged c @ [LogOnMessageFailed]
    \<and> state (session lib now (before @ ev # after) c)
        = replay lib after
            (observer_writes ev (replay lib before (state c) ++\<^sub>f coerce_numbers lib d))
    \<and> delivered (session lib now (before @ ev # after) c)
        = delivered c @ seen lib before (state c)
          @ [replay lib before (state c) ++\<^sub>f coerce_numbers lib d]
          @ seen lib after
              (observer_writes ev (replay lib before (state c) ++\<^sub>f coerce_numbers lib d))
    \<and> (quiet ev \<longrightarrow> state (handle_frame lib ev c) = state c ++\<^sub>f coerce_numbers lib d)
    \<and> (list_all quiet (before @ ev # after) \<longrightarrow>
         state (session lib now (before @ ev # after) c)
           = merge_all lib (updates lib after)
               (merge_all lib (updates lib before) (state c) ++\<^sub>f coerce_numbers lib d)
         \<and> delivered (session lib now (before @ ev # after) c)
           = delivered c @ snapshots lib (updates lib before) (state c)
             @ [merge_all lib (updates lib before) (state c) ++\<^sub>f coerce_numbers lib d]
             @ snapshots lib (updates lib after)
                 (merge_all lib (updates lib before) (state c) ++\<^sub>f coerce_numbers lib d))"
proof -
  have a: "after_frame lib ev m = observer_writes ev (m ++\<^sub>f coerce_numbers lib d)" for m
    using assms(1) by (simp add: after_frame_def)
  have s: "seen lib (ev # after) m
      = (m ++\<^sub>f coerce_numbers lib d)
        # seen lib after (observer_writes ev (m ++\<^sub>f coerce_numbers lib d))" for m
    using assms(1) by (simp add: a)
  have general: "state (handle_frame lib ev c)
        = observer_writes ev (state c ++\<^sub>f coerce_numbers lib d)
    \<and> delivered (handle_frame lib ev c) = delivered c @ [state c ++\<^sub>f coerce_numbers lib d]
    \<and> logged (handle_frame lib ev c) = logged c @ [LogOnMessageFailed]
    \<and> state (session lib now (before @ ev # after) c)
        = replay lib after
            (observer_writes ev (replay lib before (state c) ++\<^sub>f coerce_numbers lib d))
    \<and> delivered (session lib now (before @ ev # after) c)
        = delivered c @ seen lib before (state c)
          @ [replay lib before (state c) ++\<^sub>f coerce_numbers lib d]
          @ seen lib after
              (observer_writes ev (replay lib before (state c) ++\<^sub>f coerce_numbers lib d))"
    using assms
    by (simp add: handle_frame_state handle_frame_delivered handle_frame_logged session_state
        session_delivered replay_append replay_Cons seen_append a s)
  have q1: "state (handle_frame lib ev c) = state c ++\<^sub>f coerce_numbers lib d" if "quiet ev"
    using that general by (simp add: observer_writes_quiet)
  have q2: "state (session lib now (before @ ev # after) c)
        = merge_all lib (updates lib after)
            (merge_all lib (updates lib before) (state c) ++\<^sub>f coerce_numbers lib d)
      \<and> delivered (session lib now (before @ ev # after) c)
        = delivered c @ snapshots lib (updates lib before) (state c)
          @ [merge_all lib (updates lib before) (state c) ++\<^sub>f coerce_numbers lib d]
          @ snapshots lib (updates lib after)
              (merge_all lib (updates lib before) (state c) ++\<^sub>f coerce_numbers lib d)"
    if "list_all quiet (before @ ev # after)"
    using that general by (simp add: observer_writes_quiet replay_quiet seen_quiet)
  from general q1 q2 show ?thesis by blast
qed

theorem C6_witness:
  "state (handle_frame demo_lib demo_update init)
     = fmempty ++\<^sub>f coerce_numbers demo_lib
         (fmap_of_list [(''temp'', JStr ''23.5''), (''state'', JStr ''printing'')])
   \<and> logged (handle_frame demo_lib demo_update init) = [LogOnMessageFailed]
   \<and> state (session demo_lib 10 [demo_heartbeat, demo_update, frame ''{progress:42}'' 14] init)
     = fmempty ++\<^sub>f coerce_numbers demo_lib
         (fmap_of_list [(''temp'', JStr ''23.5''), (''state'', JStr ''printing'')])
       ++\<^sub>f coerce_numbers demo_lib (fmap_of_list [(''progress'', JStr ''42'')])"
proof -
  have 1: "update_of demo_lib demo_update
      = Some (fmap_of_list [(''temp'', JStr ''23.5''), (''state'', JStr ''printing'')])"
    by (simp add: update_of_def demo_lib_def demo_update_def frame_text_def)
  have 2: "cb_raises demo_update"
    by (simp add: demo_update_def)
  have 3: "updates demo_lib [demo_heartbeat] = []"
    by (simp add: updates_def update_of_def demo_lib_def demo_heartbeat_def frame_def
        frame_text_def)
  have 4: "updates demo_lib [frame ''{progress:42}'' 14]
      = [fmap_of_list [(''progress'', JStr ''42'')]]"
    by (simp add: updates_def update_of_def demo_lib_def frame_def frame_text_def)
  have 5: "quiet demo_update"
    by (simp add: quiet_def demo_update_def)
  have 6: "list_all quiet ([demo_heartbeat] @ demo_update # [frame ''{progress:42}'' 14])"
    by (simp add: quiet_def demo_update_def demo_heartbeat_def frame_def)
  note th = C6_callback_failure [OF 1 2, of init 10 "[demo_heartbeat]"
      "[frame ''{progress:42}'' 14]"]
  note rest = th [THEN conjunct2, THEN conjunct2]
  have a: "state (handle_frame demo_lib demo_update init)
      = state init ++\<^sub>f coerce_numbers demo_lib
          (fmap_of_list [(''temp'', JStr ''23.5''), (''state'', JStr ''printing'')])"
    using rest [THEN conjunct2, THEN conjunct2, THEN conjunct2, THEN conjunct1] 5 by (rule mp)
  have b: "logged (handle_frame demo_lib demo_update init)
      = logged (init :: rat client) @ [LogOnMessageFailed]"
    by (rule rest [THEN conjunct1])
  have "state (session demo_lib 10 ([demo_heartbeat] @ demo_update # [frame ''{progress:42}'' 14])
        init)
      = merge_all demo_lib (updates demo_lib [frame ''{progress:42}'' 14])
          (merge_all demo_lib (updates demo_lib [demo_heartbeat]) (state init)
           ++\<^sub>f coerce_numbers demo_lib
             (fmap_of_list [(''temp'', JStr ''23.5''), (''state'', JStr ''printing'')]))"
    using rest [THEN conjunct2, THEN conjunct2, THEN conjunct2, THEN conjunct2, THEN mp, OF 6]
    by (rule conjunct1)
  with a b 3 4 show ?thesis by (simp add: init_def)
qed

text \<open>
  C9. The text of a binary frame is its decoding, and the frame is handled as the text
  frame of that decoding is. When the decoding is the text \<^verbatim>\<open>ok\<close> the frame is dropped:
  nothing changes but the time of the last receipt. When it parses to a mapping that is no
  heartbeat request, the mapping is coerced and merged and the snapshot is passed; when it
  parses to a heartbeat request, \<^verbatim>\<open>ok\<close> is sent and the state is left; when it does not
  parse, the frame is dropped.
\<close>

theorem C9_binary_frame:
  "frame_text lib (Binary bs) = decode_utf8_ignore lib bs
   \<and> handle_frame lib (ev\<lparr>raw := Binary bs\<rparr>) c
       = handle_frame lib (ev\<lparr>raw := Text (decode_utf8_ignore lib bs)\<rparr>) c
   \<and> (decode_utf8_ignore lib bs = ''ok''
        \<longrightarrow> handle_frame lib (ev\<lparr>raw := Binary bs\<rparr>) c = c\<lparr>last_rx := rx_time ev\<rparr>)
   \<and> (decode_utf8_ignore lib bs \<noteq> ''ok''
        \<and> json_loads lib (decode_utf8_ignore lib bs) = Some (JDict payload)
        \<and> fmlookup payload ''ModeCode'' \<noteq> Some (JStr ''heart_beat'')
        \<longrightarrow> state (handle_frame lib (ev\<lparr>raw := Binary bs\<rparr>) c)
              = observer_writes ev (state c ++\<^sub>f coerce_numbers lib payload)
            \<and> delivered (handle_frame lib (ev\<lparr>raw := Binary bs\<rparr>) c)
              = delivered c @ [state c ++\<^sub>f coerce_numbers lib payload]
            \<and> sends (handle_frame lib (ev\<lparr>raw := Binary bs\<rparr>) c) = sends c)
   \<and> (decode_utf8_ignore lib bs \<noteq> ''ok''
        \<and> json_loads lib (decode_utf8_ignore lib bs) = Some (JDict payload)
        \<and> fmlookup payload ''ModeCode'' = Some (JStr ''heart_beat'')
        \<longrightarrow> sends (handle_frame lib (ev\<lparr>raw := Binary bs\<rparr>) c)
              = sends c @ [(''ok'', \<not> ack_raises ev)]
            \<and> state (handle_frame lib (ev\<lparr>raw := Binary bs\<rparr>) c) = state c
            \<and> delivered (handle_frame lib (ev\<lparr>raw := Binary bs\<rparr>) c) = delivered c)
   \<and> (decode_utf8_ignore lib bs \<noteq> ''ok'' \<and> json_loads lib (decode_utf8_ignore lib bs) = None
        \<longrightarrow> handle_frame lib (ev\<lparr>raw := Binary bs\<rparr>) c = c\<lparr>last_rx := rx_time ev\<rparr>)"
  by (simp add: handle_frame_def frame_text_def observer_writes_def log_def Let_def
      split: option.split json.split)

theorem C9_witness:
  "decode_utf8_ignore demo_lib [0xFF, 0x6F, 0x6B] = ''ok''
   \<and> handle_frame demo_lib demo_binary_ok (handle_frame demo_lib demo_update init)
       = (handle_frame demo_lib demo_update init)\<lparr>last_rx := 13\<rparr>
   \<and> fmlookup (state (handle_frame demo_lib demo_binary_update
         (handle_frame demo_lib demo_update init))) ''progress'' = Some (JInt 42)
   \<and> fmlookup (state (handle_frame demo_lib demo_binary_update
         (handle_frame demo_lib demo_update init))) ''temp'' = Some (JFloat (47 / 2))
   \<and> last (delivered (handle_frame demo_lib demo_binary_update
         (handle_frame demo_lib demo_update init)))
       = state (handle_frame demo_lib demo_binary_update (handle_frame demo_lib demo_update init))"
proof -
  let ?c = "handle_frame demo_lib demo_update init"
  let ?bs = "[0x7B, 0x70, 0x72, 0x6F, 0x67, 0xFF, 0x72, 0x65, 0x73, 0x73, 0x3A, 0x34, 0x32, 0x7D]
    :: 8 word list"
  have 1: "decode_utf8_ignore demo_lib [0xFF, 0x6F, 0x6B] = ''ok''"
    by code_simp
  have 2: "demo_binary_ok\<lparr>raw := Binary [0xFF, 0x6F, 0x6B]\<rparr> = demo_binary_ok"
    by (simp add: demo_binary_ok_def)
  have 3: "rx_time demo_binary_ok = 13"
    by (simp add: demo_binary_ok_def)
  from C9_binary_frame [where lib = demo_lib and ev = demo_binary_ok
      and bs = "[0xFF, 0x6F, 0x6B]" and c = ?c] 1
  have "handle_frame demo_lib (demo_binary_ok\<lparr>raw := Binary [0xFF, 0x6F, 0x6B]\<rparr>) ?c
      = ?c\<lparr>last_rx := rx_time demo_binary_ok\<rparr>"
    by blast
  with 2 3 have dropped: "handle_frame demo_lib demo_binary_ok ?c = ?c\<lparr>last_rx := 13\<rparr>"
    by simp
  have 4: "decode_utf8_ignore demo_lib ?bs = ''{progress:42}''"
    by code_simp
  have 5: "decode_utf8_ignore demo_lib ?bs \<noteq> ''ok''
      \<and> json_loads demo_lib (decode_utf8_ignore demo_lib ?bs)
          = Some (JDict (fmap_of_list [(''progress'', JStr ''42'')]))
      \<and> fmlookup (fmap_of_list [(''progress'', JStr ''42'' :: rat json)]) ''ModeCode''
          \<noteq> Some (JStr ''heart_beat'')"
    by (simp add: 4) (simp add: demo_lib_def)
  have 6: "demo_binary_update\<lparr>raw := Binary ?bs\<rparr> = demo_binary_update"
    by (simp add: demo_binary_update_def)
  from 5 C9_binary_frame [where lib = demo_lib and ev = demo_binary_update and bs = ?bs
      and c = ?c and payload = "fmap_of_list [(''progress'', JStr ''42'')]"]
  have "state (handle_frame demo_lib (demo_binary_update\<lparr>raw := Binary ?bs\<rparr>) ?c)
        = observer_writes demo_binary_update
            (state ?c ++\<^sub>f coerce_numbers demo_lib (fmap_of_list [(''progress'', JStr ''42'')]))
      \<and> delivered (handle_frame demo_lib (demo_binary_update\<lparr>raw := Binary ?bs\<rparr>) ?c)
        = delivered ?c
          @ [state ?c ++\<^sub>f coerce_numbers demo_lib (fmap_of_list [(''progress'', JStr ''42'')])]"
    by blast
  then have merged: "state (handle_frame demo_lib demo_binary_update ?c)
        = state ?c ++\<^sub>f coerce_numbers demo_lib (fmap_of_list [(''progress'', JStr ''42'')])
      \<and> last (delivered (handle_frame demo_lib demo_binary_update ?c))
        = state ?c ++\<^sub>f coerce_numbers demo_lib (fmap_of_list [(''progress'', JStr ''42'')])"
    by (simp add: 6 observer_writes_def demo_binary_update_def)
  have 7: "fmlookup (state ?c) ''temp'' = Some (JFloat (47 / 2))"
    by (simp add: handle_frame_state after_frame_def update_of_def frame_text_def
        demo_update_def observer_writes_def init_def demo_lib_def coerce_numbers_def
        coerce_value_def)
  have 8: "fmlookup (coerce_numbers demo_lib (fmap_of_list [(''progress'', JStr ''42'')]))
      ''progress'' = Some (JInt 42)"
    by (simp add: coerce_numbers_def coerce_value_def demo_lib_def)
  from 1 dropped merged 7 8 show ?thesis
    by (simp add: coerce_numbers_def)
qed

text \<open>
  C3, as the code has it. \<^verbatim>\<open>send_set_retry\<close> hands at most two texts to \<^verbatim>\<open>ws.send\<close>, and
  one send is at most one physical attempt. When the first send returns, that is all it
  does. When the first send fails it waits for the readiness event with the timeout it was
  given. With a positive timeout: when the event is set or is set in time, it makes one
  more send, whose result is its own; when the event is not set and is not set in time, it
  raises the link error with the timeout and the first failure as its cause, having sent
  nothing more. With a timeout that is not positive the wait is over at once, whether
  the link is ready or not, and it raises the link error in the same way.
\<close>

theorem C3_send_set_retry:
  "length (snd (send_set_retry lib t params env)) \<le> 2
   \<and> length (snd (send_json lib outcome obj c)) \<le> 1
   \<and> (ws c \<and> json_dumps lib obj = Some s \<longrightarrow> snd (send_json lib outcome obj c) = [s])
   \<and> (fst (send_json lib (first_send env) (set_request params) (at_first env)) = Inr ()
        \<longrightarrow> send_set_retry lib t params env
            = (Inr (), snd (send_json lib (first_send env) (set_request params) (at_first env))))
   \<and> (fst (send_json lib (first_send env) (set_request params) (at_first env)) = Inl e
        \<and> 0 < t \<and> (ws_ready (at_wait env) \<or> ready_in_time env)
        \<longrightarrow> send_set_retry lib t params env
            = (fst (send_json lib (second_send env) (set_request params) (at_second env)),
               snd (send_json lib (first_send env) (set_request params) (at_first env))
               @ snd (send_json lib (second_send env) (set_request params) (at_second env))))
   \<and> (fst (send_json lib (first_send env) (set_request params) (at_first env)) = Inl e
        \<and> 0 < t \<and> \<not> ws_ready (at_wait env) \<and> \<not> ready_in_time env
        \<longrightarrow> send_set_retry lib t params env
            = (Inl (LinkUnavailable t e),
               snd (send_json lib (first_send env) (set_request params) (at_first env))))
   \<and> (fst (send_json lib (first_send env) (set_request params) (at_first env)) = Inl e
        \<and> t \<le> 0
        \<longrightarrow> send_set_retry lib t params env
            = (Inl (LinkUnavailable t e),
               snd (send_json lib (first_send env) (set_request params) (at_first env))))"
proof -
  let ?first = "send_json lib (first_send env) (set_request params) (at_first env)"
  let ?second = "send_json lib (second_send env) (set_request params) (at_second env)"
  have 1: "length (snd ?first) \<le> 1" and 2: "length (snd ?second) \<le> 1"
    by (rule send_json_tried)+
  have a: "length (snd (send_set_retry lib t params env)) \<le> 2"
    using 1 2 by (simp add: send_set_retry_cases split: sum.split)
  have b: "length (snd (send_json lib outcome obj c)) \<le> 1"
    by (rule send_json_tried)
  have p: "ws c \<and> json_dumps lib obj = Some s \<longrightarrow> snd (send_json lib outcome obj c) = [s]"
    by (simp add: send_json_def split: option.split)
  have r: "fst ?first = Inr () \<longrightarrow> send_set_retry lib t params env = (Inr (), snd ?first)"
    by (simp add: send_set_retry_cases)
  have y: "fst ?first = Inl e \<and> 0 < t \<and> (ws_ready (at_wait env) \<or> ready_in_time env)
      \<longrightarrow> send_set_retry lib t params env = (fst ?second, snd ?first @ snd ?second)"
    by (simp add: send_set_retry_cases wait_connected_def wait_for_event_def)
  have n: "fst ?first = Inl e \<and> 0 < t \<and> \<not> ws_ready (at_wait env) \<and> \<not> ready_in_time env
      \<longrightarrow> send_set_retry lib t params env = (Inl (LinkUnavailable t e), snd ?first)"
    by (simp add: send_set_retry_cases wait_connected_def wait_for_event_def)
  have z: "fst ?first = Inl e \<and> t \<le> 0
      \<longrightarrow> send_set_retry lib t params env = (Inl (LinkUnavailable t e), snd ?first)"
    by (simp add: send_set_retry_cases wait_connected_def wait_for_event_def)
  from a b p r y n z show ?thesis by blast
qed

theorem C3_witness:
  "send_set_retry demo_lib 6 fmempty demo_recovering = (Inr (), [''{method:set}'', ''{method:set}''])
   \<and> send_set_retry demo_lib 6 fmempty demo_env
     = (Inl (SendError ''connection closed''), [''{method:set}''])
   \<and> send_set_retry demo_lib 6 fmempty (demo_env\<lparr>at_wait := init\<rparr>)
     = (Inl (LinkUnavailable 6 NotConnected), [])
   \<and> send_set_retry demo_lib 0 fmempty demo_recovering
     = (Inl (LinkUnavailable 0 (SendError ''connection closed'')), [''{method:set}''])
   \<and> send_set_retry demo_lib 6 fmempty (demo_env\<lparr>at_first := demo_live\<rparr>)
     = (Inr (), [''{method:set}''])"
proof -
  have live: "ws demo_live \<and> ws_ready demo_live"
    by (simp add: demo_live_def session_def log_def Let_def)
  have idle: "\<not> ws (init :: rat client) \<and> \<not> ws_ready (init :: rat client)"
    by (simp add: init_def)
  have dumps: "json_dumps demo_lib v = Some ''{method:set}''" for v
    by (simp add: demo_lib_def)
  have broken: "send_json demo_lib (Some ''connection closed'') (set_request fmempty) demo_live
      = (Inl (SendError ''connection closed''), [''{method:set}''])"
    using live by (simp add: send_json_def dumps)
  have sent: "send_json demo_lib None (set_request fmempty) demo_live
      = (Inr (), [''{method:set}''])"
    using live by (simp add: send_json_def dumps)
  have absent: "send_json demo_lib outcome (set_request fmempty) init = (Inl NotConnected, [])"
    for outcome :: "string option"
    using idle by (simp add: send_json_def)
  note th = C3_send_set_retry [where lib = demo_lib and params = fmempty
      and outcome = "None :: string option" and obj = JNull and c = init and s = "[]"]
  have 1: "send_set_retry demo_lib 6 fmempty demo_recovering
      = (Inr (), [''{method:set}'', ''{method:set}''])"
    using th [where t = 6 and env = demo_recovering and e = "SendError ''connection closed''"]
      idle
    by (simp add: demo_recovering_def broken sent)
  have 2: "send_set_retry demo_lib 6 fmempty demo_env
      = (Inl (SendError ''connection closed''), [''{method:set}''])"
    using th [where t = 6 and env = demo_env and e = NotConnected] live
    by (simp add: demo_env_def broken absent)
  have 3: "send_set_retry demo_lib 6 fmempty (demo_env\<lparr>at_wait := init\<rparr>)
      = (Inl (LinkUnavailable 6 NotConnected), [])"
    using th [where t = 6 and env = "demo_env\<lparr>at_wait := init\<rparr>" and e = NotConnected]
      idle
    by (simp add: demo_env_def absent)
  have 4: "send_set_retry demo_lib 0 fmempty demo_recovering
      = (Inl (LinkUnavailable 0 (SendError ''connection closed'')), [''{method:set}''])"
    using th [where t = 0 and env = demo_recovering and e = "SendError ''connection closed''"]
    by (simp add: demo_recovering_def broken)
  have 5: "send_set_retry demo_lib 6 fmempty (demo_env\<lparr>at_first := demo_live\<rparr>)
      = (Inr (), [''{method:set}''])"
    using th [where t = 6 and env = "demo_env\<lparr>at_first := demo_live\<rparr>"]
    by (simp add: demo_env_def sent)
  from 1 2 3 4 5 show ?thesis by blast
qed

text \<open>
  C3 as it is written has one more send whenever the connection is ready. Here the first
  send breaks on a socket that stays live and ready: with the timeout 6 the second send
  goes out, with the timeout 0 the call raises the link error after its one attempt.
\<close>

theorem C3_counterexample:
  "ws_ready (at_wait demo_ready)
   \<and> send_set_retry demo_lib 6 fmempty demo_ready
       = (Inr (), [''{method:set}'', ''{method:set}''])
   \<and> send_set_retry demo_lib 0 fmempty demo_ready
       = (Inl (LinkUnavailable 0 (SendError ''connection closed'')), [''{method:set}''])"
  by (simp add: send_set_retry_def send_json_def wait_connected_def wait_for_event_def
      set_request_def demo_ready_def demo_live_def session_def log_def init_def
      demo_lib_def Let_def)

text \<open>
  C8. When the first send fails, the wait returns and the second send fails too, the caller
  gets the exception of the second send as it is: it is no link error, whatever timeout and
  cause one might think of, and nothing is sent beyond the two attempts.
\<close>

theorem C8_second_failure:
  assumes "fst (send_json lib (first_send env) (set_request params) (at_first env)) = Inl e1"
    and "wait_connected t (ready_in_time env) (at_wait env)"
    and "fst (send_json lib (second_send env) (set_request params) (at_second env)) = Inl e2"
  shows "fst (send_set_retry lib t params env) = Inl e2
    \<and> e2 \<noteq> LinkUnavailable t' cause
    \<and> snd (send_set_retry lib t params env)
        = snd (send_json lib (first_send env) (set_request params) (at_first env))
          @ snd (send_json lib (second_send env) (set_request params) (at_second env))
    \<and> length (snd (send_set_retry lib t params env)) \<le> 2"
proof -
  have "e2 \<noteq> LinkUnavailable t' cause"
    using assms(3) send_json_not_link [of lib "second_send env" "set_request params" "at_second env" t' cause]
    by auto
  moreover have "length (snd (send_json lib (first_send env) (set_request params) (at_first env))
      @ snd (send_json lib (second_send env) (set_request params) (at_second env))) \<le> 2"
    using send_json_tried [of lib "first_send env" "set_request params" "at_first env"]
      send_json_tried [of lib "second_send env" "set_request params" "at_second env"]
    by simp
  ultimately show ?thesis
    using assms by (simp add: send_set_retry_cases)
qed

theorem C8_witness:
  "fst (send_set_retry demo_lib 6 fmempty demo_env) = Inl (SendError ''connection closed'')
   \<and> snd (send_set_retry demo_lib 6 fmempty demo_env) = [''{method:set}'']"
proof -
  have f: "send_json demo_lib (first_send demo_env) (set_request fmempty) (at_first demo_env)
      = (Inl NotConnected, [])"
    by (simp add: send_json_def demo_env_def init_def)
  have s: "send_json demo_lib (second_send demo_env) (set_request fmempty) (at_second demo_env)
      = (Inl (SendError ''connection closed''), [''{method:set}''])"
    by (simp add: send_json_def demo_env_def demo_live_def session_def log_def init_def
        demo_lib_def Let_def)
  have w: "wait_connected 6 (ready_in_time demo_env) (at_wait demo_env)"
    by (simp add: wait_connected_def wait_for_event_def demo_env_def demo_live_def session_def
        log_def init_def Let_def)
  have f1: "fst (send_json demo_lib (first_send demo_env) (set_request fmempty)
      (at_first demo_env)) = Inl NotConnected"
    by (simp add: f)
  have s1: "fst (send_json demo_lib (second_send demo_env) (set_request fmempty)
      (at_second demo_env)) = Inl (SendError ''connection closed'')"
    by (simp add: s)
  from C8_second_failure [OF f1 w s1] show ?thesis
    by (simp add: f s)
qed

text \<open>
  C4. In a stretch of the loop that is not stopped or cancelled, the timeouts it sleeps
  are the delays of the specification: after a failed attempt the least of
  \<open>current * (1.8 + jitter)\<close> and the upper bound, after a connection the same with the
  lower bound for \<open>current\<close>, whatever it was before. No delay exceeds the upper bound.
  Over attempts that all fail, with a jitter in \<open>[0, 0.4)\<close> and bounds and a starting value
  that are not negative, the delays never decrease. The arithmetic is that of the reals,
  and the jitter is an input: that it is drawn uniformly is \<^verbatim>\<open>random.uniform\<close>'s affair.
\<close>

theorem C4_backoff:
  assumes "\<not> stop_ev c"
    and "\<forall>r \<in> set rs. \<not> cancelled (attempt r) \<and> wait r = TimedOut"
  shows "slept (loop lib cfg rs b c) = slept c @ delays cfg b rs
    \<and> (\<forall>d \<in> set (delays cfg b rs). d \<le> retry_max_backoff cfg)
    \<and> (0 \<le> b \<and> 0 \<le> retry_max_backoff cfg
         \<and> (\<forall>r \<in> set rs. attempt r = ConnectRaises \<and> 0 \<le> jitter r \<and> jitter r < 0.4)
         \<longrightarrow> sorted (delays cfg b rs))
    \<and> delays cfg b (\<lparr>attempt = ConnectRaises, jitter = j, wait = TimedOut\<rparr> # rs)
        = min (b * (1.8 + j)) (retry_max_backoff cfg)
          # delays cfg (min (b * (1.8 + j)) (retry_max_backoff cfg)) rs
    \<and> delays cfg b (\<lparr>attempt = Connected now evs e, jitter = j, wait = TimedOut\<rparr> # rs)
        = min (retry_min_backoff cfg * (1.8 + j)) (retry_max_backoff cfg)
          # delays cfg (min (retry_min_backoff cfg * (1.8 + j)) (retry_max_backoff cfg)) rs"
proof -
  have 1: "slept (loop lib cfg rs b c) = slept c @ delays cfg b rs"
    using assms(2,1) by (rule loop_slept)
  have 2: "\<forall>d \<in> set (delays cfg b rs). d \<le> retry_max_backoff cfg"
    by (rule delays_le_max)
  have 3: "sorted (delays cfg b rs)"
    if "0 \<le> b" "0 \<le> retry_max_backoff cfg"
      "\<forall>r \<in> set rs. attempt r = ConnectRaises \<and> 0 \<le> jitter r \<and> jitter r < 0.4"
    using that(2) _ that(1) by (rule delays_sorted) (use that(3) in simp)
  from 1 2 3 show ?thesis
    by (simp add: delays_Cons sleep_for_def del: delays.simps)
qed

theorem C4_witness:
  "slept (loop demo_lib demo_cfg demo_failures 1 init) = [2, 18 / 5, 5]
   \<and> delays demo_cfg 1 demo_failures = [2, 18 / 5, 5]
   \<and> sorted (delays demo_cfg 1 demo_failures)"
proof -
  have 1: "\<not> stop_ev (init :: rat client)"
    by (simp add: init_def)
  have 2: "\<forall>r \<in> set demo_failures. \<not> cancelled (attempt r) \<and> wait r = TimedOut"
    by (simp add: demo_failures_def)
  have 3: "(0::real) \<le> 1 \<and> 0 \<le> retry_max_backoff demo_cfg
      \<and> (\<forall>r \<in> set demo_failures. attempt r = ConnectRaises \<and> 0 \<le> jitter r \<and> jitter r < 0.4)"
    by (simp add: demo_failures_def demo_cfg_def)
  have 4: "delays demo_cfg 1 demo_failures = [2, 18 / 5, 5]"
    by (simp add: demo_failures_def demo_cfg_def Let_def)
  have 5: "slept (init :: rat client) = []"
    by (simp add: init_def)
  from C4_backoff [OF 1 2, of demo_lib demo_cfg 1] 3
  have "slept (loop demo_lib demo_cfg demo_failures 1 init)
      = slept (init :: rat client) @ delays demo_cfg 1 demo_failures
    \<and> (\<forall>d \<in> set (delays demo_cfg 1 demo_failures). d \<le> retry_max_backoff demo_cfg)
    \<and> sorted (delays demo_cfg 1 demo_failures)"
    by blast
  with 4 5 show ?thesis
    by simp
qed

text \<open>
  C7, as the code has it. An attempt leaves the latch set when it connected or when the
  latch was set before, so nothing the client lives through clears it: not a disconnect, a
  reconnect, \<^verbatim>\<open>stop()\<close> or \<^verbatim>\<open>start()\<close>. A call of \<^verbatim>\<open>wait_first_connect\<close> that returns
  true leaves the latch set, whatever the client went through while the caller waited and
  goes through afterwards, and every later call with a positive timeout returns true. A
  call with a timeout that is not positive returns false, whatever the latch holds; a call
  with a positive timeout on a set latch returns true. The readiness event is set while a
  connection lives and cleared when the attempt is over.
\<close>

theorem C7_latch:
  "connected_once (run_attempt lib a c) = (connected a \<or> connected_once c)
   \<and> (connected_once c \<longrightarrow> connected_once (run lib cfg ops c))
   \<and> (wait_first_connect lib cfg timeout during c
        \<longrightarrow> connected_once (run lib cfg (during @ ops) c))
   \<and> (wait_first_connect lib cfg timeout during c \<and> 0 < timeout'
        \<longrightarrow> wait_first_connect lib cfg timeout' during' (run lib cfg (during @ ops) c))
   \<and> (timeout \<le> 0 \<longrightarrow> \<not> wait_first_connect lib cfg timeout during c)
   \<and> (0 < timeout \<and> connected_once c \<longrightarrow> wait_first_connect lib cfg timeout during c)
   \<and> (0 < timeout \<and> connected_once (run lib cfg during c)
        \<longrightarrow> wait_first_connect lib cfg timeout during c)
   \<and> ws_ready (session lib now evs c)
   \<and> \<not> ws_ready (run_attempt lib a c)"
proof -
  have later: "connected_once (run lib cfg (during @ ops) c)"
    if "wait_first_connect lib cfg timeout during c"
    using that
    by (auto simp add: wait_first_connect_def wait_for_event_def run_latch
        latched_during_later)
  have again: "wait_first_connect lib cfg timeout' during' (run lib cfg (during @ ops) c)"
    if "wait_first_connect lib cfg timeout during c" "0 < timeout'"
    using later [OF that(1)] that(2)
    by (simp add: wait_first_connect_def wait_for_event_def)
  have never: "\<not> wait_first_connect lib cfg timeout during c" if "timeout \<le> 0"
    using that by (simp add: wait_first_connect_def wait_for_event_def)
  have found: "wait_first_connect lib cfg timeout during c" if "0 < timeout" "connected_once c"
    using that by (simp add: wait_first_connect_def wait_for_event_def)
  have waited: "wait_first_connect lib cfg timeout during c"
    if "0 < timeout" "connected_once (run lib cfg during c)"
    using that by (simp add: wait_first_connect_def wait_for_event_def latched_during_end)
  from later again never found waited show ?thesis
    by (simp add: run_attempt_connected_once run_latch session_signals run_attempt_ws_ready)
qed

theorem C7_witness:
  "wait_first_connect demo_lib demo_cfg 5 demo_ops init
   \<and> connected_once (run demo_lib demo_cfg (demo_ops @ [Stop False, Start]) init)
   \<and> wait_first_connect demo_lib demo_cfg 5 []
       (run demo_lib demo_cfg (demo_ops @ [Stop False, Start]) init)
   \<and> \<not> wait_first_connect demo_lib demo_cfg 0 []
       (run demo_lib demo_cfg (demo_ops @ [Stop False, Start]) init)"
proof -
  have 2: "(0::real) < 5" and 3: "(0::real) \<le> 0"
    by simp_all
  note th = C7_latch [where lib = demo_lib and cfg = demo_cfg]
  from 2 demo_run_latch th [where timeout = 5 and during = demo_ops and c = init]
  have 1: "wait_first_connect demo_lib demo_cfg 5 demo_ops init"
    by blast
  from 1 th [where timeout = 5 and during = demo_ops and c = init and ops = "[Stop False, Start]"]
  have 4: "connected_once (run demo_lib demo_cfg (demo_ops @ [Stop False, Start]) init)"
    by blast
  from 1 2 th [where timeout = 5 and during = demo_ops and c = init
      and ops = "[Stop False, Start]" and timeout' = 5 and during' = "[]"]
  have 5: "wait_first_connect demo_lib demo_cfg 5 []
      (run demo_lib demo_cfg (demo_ops @ [Stop False, Start]) init)"
    by blast
  from 3 th [where timeout = 0 and during = "[]"
      and c = "run demo_lib demo_cfg (demo_ops @ [Stop False, Start]) init"]
  have 6: "\<not> wait_first_connect demo_lib demo_cfg 0 []
      (run demo_lib demo_cfg (demo_ops @ [Stop False, Start]) init)"
    by blast
  from 1 4 5 6 show ?thesis by blast
qed

text \<open>
  C7 as it is written asks that of every later call. The first call, with the timeout 5,
  returns true as the client connects while the caller waits; a later call with the
  timeout 0 returns false on that client, whose latch is set: \<^verbatim>\<open>asyncio.wait_for\<close> with a
  timeout that is not positive does not let the waiter run.
\<close>

theorem C7_counterexample:
  "wait_first_connect demo_lib demo_cfg 5 demo_ops init
   \<and> connected_once (run demo_lib demo_cfg demo_ops init)
   \<and> \<not> wait_first_connect demo_lib demo_cfg 0 [] (run demo_lib demo_cfg demo_ops init)"
  by (simp add: wait_first_connect_def wait_for_event_def latched_during_end demo_run_latch)

text \<open>
  C10. A new client reports 0, and so does every client that has not connected yet,
  whatever else it has lived through; an attempt that does not connect leaves the time as
  it is. A connection sets it to the clock value read on connecting, before any frame,
  and every frame sets it to the clock value read on its receipt, so that after a
  connection with frames it is that of the last frame.
\<close>

theorem C10_last_rx:
  "last_rx_monotonic (init :: 'f client) = 0
   \<and> (\<not> connected_once (run lib cfg ops (init :: 'f client))
        \<longrightarrow> last_rx_monotonic (run lib cfg ops (init :: 'f client)) = 0)
   \<and> (\<not> connected a \<longrightarrow> last_rx_monotonic (run_attempt lib a c) = last_rx_monotonic c)
   \<and> last_rx_monotonic (session lib now [] c) = now
   \<and> last_rx_monotonic (run_attempt lib (Connected now [] e) c) = now
   \<and> last_rx_monotonic (handle_frame lib ev c) = rx_time ev
   \<and> (evs \<noteq> [] \<longrightarrow> last_rx_monotonic (session lib now evs c) = rx_time (last evs))"
proof -
  have "connected_once (init :: 'f client) \<or> last_rx (init :: 'f client) = 0"
    by (simp add: init_def)
  then have "connected_once (run lib cfg ops (init :: 'f client))
      \<or> last_rx (run lib cfg ops (init :: 'f client)) = 0"
    by (rule run_last_rx_zero)
  then show ?thesis
    by (auto simp add: last_rx_monotonic_def init_def run_attempt_last_rx session_last_rx
        handle_frame_flags)
qed

theorem C10_witness:
  "\<not> connected_once (run demo_lib demo_cfg [Start, Run demo_failures] init)
   \<and> last_rx_monotonic (run demo_lib demo_cfg [Start, Run demo_failures] init) = 0
   \<and> last_rx_monotonic (run_attempt demo_lib ConnectRaises demo_live) = 10
   \<and> last_rx_monotonic (session demo_lib 20 [demo_heartbeat, demo_update] demo_live) = 12"
proof -
  have 1: "\<not> connected_once (run demo_lib demo_cfg [Start, Run demo_failures] init)"
    by (simp add: run_def start_def init_def loop_task_def demo_failures_def cleanup_def log_def
        Let_def)
  have 2: "\<not> connected ConnectRaises"
    by simp
  have 3: "[demo_heartbeat, demo_update] \<noteq> []"
    by simp
  have 4: "last_rx_monotonic demo_live = 10"
    by (simp add: last_rx_monotonic_def demo_live_def session_def log_def Let_def)
  have 5: "rx_time (last [demo_heartbeat, demo_update]) = 12"
    by (simp add: demo_update_def)
  from 1 2 3 C10_last_rx [where lib = demo_lib and cfg = demo_cfg
      and ops = "[Start, Run demo_failures]" and a = ConnectRaises and c = demo_live
      and evs = "[demo_heartbeat, demo_update]" and now = 20]
  have "last_rx_monotonic (run demo_lib demo_cfg [Start, Run demo_failures] init) = 0
    \<and> last_rx_monotonic (run_attempt demo_lib ConnectRaises demo_live)
        = last_rx_monotonic demo_live
    \<and> last_rx_monotonic (session demo_lib 20 [demo_heartbeat, demo_update] demo_live)
        = rx_time (last [demo_heartbeat, demo_update])"
    by blast
  with 1 4 5 show ?thesis by simp
qed

end
